theory Spec2Isabelle
  imports Complex_Main "HOL-Library.AList" "HOL-Library.Log_Nat"
begin

section \<open>JavaScript values at the request boundary\<close>

text \<open>
  The handlers of \<^verbatim>\<open>api/webhook.js\<close>, \<^verbatim>\<open>api/verify.js\<close> and \<^verbatim>\<open>api/index.js\<close>
  read \<^verbatim>\<open>req.body\<close>, a value parsed from JSON. \<open>JUndefined\<close> is the value of a missing
  property (and of a missing body). Numbers are the integers (Telegram ids, clock
  readings): a number with a fraction, or one so large that JavaScript prints it with an
  exponent, is not modelled. Strings are lists of code units below 256. An object is the
  list of its own properties, one entry per key.
\<close>

datatype jsval =
    JUndefined
  | JNull
  | JBool bool
  | JNum int
  | JStr string
  | JArr "jsval list"
  | JObj "(string \<times> jsval) list"

datatype js_error = TypeError | FetchError

text \<open>Truthiness, as \<^verbatim>\<open>!x\<close> and \<^verbatim>\<open>x || y\<close> read it.\<close>

fun truthy :: "jsval \<Rightarrow> bool" where
  "truthy JUndefined = False"
| "truthy JNull = False"
| "truthy (JBool b) = b"
| "truthy (JNum n) = (n \<noteq> 0)"
| "truthy (JStr s) = (s \<noteq> [])"
| "truthy (JArr xs) = True"
| "truthy (JObj kvs) = True"

definition js_or :: "jsval \<Rightarrow> jsval \<Rightarrow> jsval" where
  "js_or a b = (if truthy a then a else b)"

text \<open>
  Property access \<^verbatim>\<open>v.k\<close> for the property names the handlers use (\<open>message\<close>, \<open>text\<close>,
  \<open>chat\<close>, \<open>from\<close>, \<open>id\<close>, \<open>username\<close>, \<open>first_name\<close>, \<open>code\<close>): none of them is inherited
  from a prototype, so a primitive or an array gives \<^verbatim>\<open>undefined\<close>, and reading a property
  of \<^verbatim>\<open>undefined\<close> or \<^verbatim>\<open>null\<close> throws a TypeError. Object destructuring
  \<^verbatim>\<open>const { k } = v\<close> behaves the same way.
\<close>

fun get_prop :: "jsval \<Rightarrow> string \<Rightarrow> js_error + jsval" where
  "get_prop JUndefined k = Inl TypeError"
| "get_prop JNull k = Inl TypeError"
| "get_prop (JObj kvs) k = Inr (case map_of kvs k of None \<Rightarrow> JUndefined | Some v \<Rightarrow> v)"
| "get_prop v k = Inr JUndefined"

definition try_bind :: "js_error + 'a \<Rightarrow> ('a \<Rightarrow> js_error + 'b) \<Rightarrow> js_error + 'b" where
  "try_bind m f = (case m of Inl e \<Rightarrow> Inl e | Inr x \<Rightarrow> f x)"

subsection \<open>Number and value to string\<close>

text \<open>
  The decimal digits of an integer, most significant first, with a minus sign for a
  negative one: \<^verbatim>\<open>Number.prototype.toString\<close> on the integers. \<open>digit_char\<close> is applied
  to numbers below 10 only.
\<close>

definition digit_char :: "nat \<Rightarrow> char" where
  "digit_char d = ''0123456789'' ! d"

fun nat_toString :: "nat \<Rightarrow> string" where
  "nat_toString n =
     (if n < 10 then [digit_char n] else nat_toString (n div 10) @ [digit_char (n mod 10)])"

declare nat_toString.simps [simp del]

definition num_toString :: "int \<Rightarrow> string" where
  "num_toString i = (if i < 0 then CHR ''-'' # nat_toString (nat (- i)) else nat_toString (nat i))"

text \<open>
  \<^verbatim>\<open>v.toString()\<close> and the conversion of a template literal \<^verbatim>\<open>`${v}`\<close>. An array joins
  its elements with commas, \<^verbatim>\<open>null\<close> and \<^verbatim>\<open>undefined\<close> elements printing as the empty
  string. A parsed object prints as \<^verbatim>\<open>[object Object]\<close>, unless it has an own property
  \<open>toString\<close>: that property is then not callable and the conversion throws.
\<close>

fun js_toString :: "jsval \<Rightarrow> js_error + string"
  and join_elems :: "jsval list \<Rightarrow> js_error + string" where
  "js_toString JUndefined = Inr ''undefined''"
| "js_toString JNull = Inr ''null''"
| "js_toString (JBool b) = Inr (if b then ''true'' else ''false'')"
| "js_toString (JNum n) = Inr (num_toString n)"
| "js_toString (JStr s) = Inr s"
| "js_toString (JArr xs) = join_elems xs"
| "js_toString (JObj kvs) =
     (if ''toString'' \<in> fst ` set kvs then Inl TypeError else Inr ''[object Object]'')"
| "join_elems [] = Inr []"
| "join_elems (x # xs) =
     (case (if x = JUndefined \<or> x = JNull then Inr [] else js_toString x) of
        Inl e \<Rightarrow> Inl e
      | Inr a \<Rightarrow>
          (if xs = [] then Inr a
           else case join_elems xs of Inl e \<Rightarrow> Inl e | Inr b \<Rightarrow> Inr (a @ '','' @ b)))"

subsection \<open>Strings: trim and the pattern of a code\<close>

text \<open>
  \<^verbatim>\<open>String.prototype.trim\<close> removes white space and line terminators from both ends;
  below 256 these are the code units 9 to 13, 32 and 160.
\<close>

definition is_space :: "char \<Rightarrow> bool" where
  "is_space c = (c \<in> set [CHR 0x09, CHR 0x0A, CHR 0x0B, CHR 0x0C, CHR 0x0D, CHR 0x20, CHR 0xA0])"

definition trim :: "string \<Rightarrow> string" where
  "trim s = rev (dropWhile is_space (rev (dropWhile is_space s)))"

text \<open>\<^verbatim>\<open>x.trim()\<close>: only a string has the method.\<close>

fun js_trim :: "jsval \<Rightarrow> js_error + string" where
  "js_trim (JStr s) = Inr (trim s)"
| "js_trim v = Inl TypeError"

definition is_digit :: "char \<Rightarrow> bool" where
  "is_digit c = (c \<in> set ''0123456789'')"

text \<open>\<^verbatim>\<open>/^\d{6}$/.test(s)\<close>: the whole string is six ASCII digits.\<close>

definition test_six_digits :: "string \<Rightarrow> bool" where
  "test_six_digits s = (length s = 6 \<and> list_all is_digit s)"

subsection \<open>Arithmetic on doubles\<close>

text \<open>
  \<^verbatim>\<open>Math.random() * 900000\<close> and \<^verbatim>\<open>100000 + ...\<close> are operations on IEEE 754 binary64
  numbers: the exact product or sum, rounded to the nearest double, a tie going to the
  double with an even significand. A double is a real number here, and \<open>round_double\<close>
  is that rounding. For \<open>x > 0\<close>, \<open>binade x\<close> is the exponent \<open>e\<close> with
  \<open>2 ^ e \<le> x < 2 ^ (e + 1)\<close>, and the doubles near \<open>x\<close> are the multiples of \<open>ulp x\<close>,
  which is
  \<open>2 ^ (e - 52)\<close>, or \<open>2 ^ (- 1074)\<close> for a subnormal \<open>x\<close>; \<open>binade\<close> is applied to
  positive numbers only. The overflow to \<^verbatim>\<open>Infinity\<close> of a result of magnitude
  \<open>2 ^ 1024\<close> or more is left out: the numbers computed from a value of
  \<^verbatim>\<open>Math.random()\<close> stay below 1000000.
\<close>

definition round_even :: "real \<Rightarrow> int" where
  "round_even x =
     (let n = \<lfloor>x\<rfloor>; f = x - of_int n
      in if f < 1 / 2 then n else if 1 / 2 < f then n + 1 else if even n then n else n + 1)"

definition binade :: "real \<Rightarrow> int" where
  "binade x =
     (if 1 \<le> x then int (floorlog 2 (nat \<lfloor>x\<rfloor>)) - 1
      else - int (floorlog 2 (nat (\<lceil>1 / x\<rceil> - 1))))"

definition ulp :: "real \<Rightarrow> real" where
  "ulp x = power_int 2 (max (binade \<bar>x\<bar>) (- 1022) - 52)"

definition round_double :: "real \<Rightarrow> real" where
  "round_double x =
     (if x = 0 then 0 else sgn x * (of_int (round_even (\<bar>x\<bar> / ulp x)) * ulp x))"

text \<open>The finite doubles are the numbers that rounding leaves as they are.\<close>

definition is_double :: "real \<Rightarrow> bool" where
  "is_double x = (round_double x = x \<and> \<bar>x\<bar> < 2 ^ 1024)"

section \<open>The pending-code registry\<close>

text \<open>
  \<^verbatim>\<open>const pendingCodes = new Map()\<close>: the entries of the map in insertion order, one per
  key. A stored value is the object literal built by the \<^verbatim>\<open>/connect\<close> branch; the
  \<^verbatim>\<open>createdAt\<close> field is absent in \<^verbatim>\<open>api/index.js\<close>.
\<close>

record codeData =
  chatId :: jsval
  userId :: jsval
  username :: jsval
  firstName :: jsval
  createdAt :: "int option"
  expiresAt :: int

type_synonym store = "(string \<times> codeData) list"

definition CODE_EXPIRY_MS :: int where
  "CODE_EXPIRY_MS = 5 * 60 * 1000"

abbreviation Map_get :: "store \<Rightarrow> string \<Rightarrow> codeData option" where
  "Map_get s k \<equiv> map_of s k"

abbreviation Map_has :: "store \<Rightarrow> string \<Rightarrow> bool" where
  "Map_has s k \<equiv> k \<in> fst ` set s"

abbreviation Map_set :: "string \<Rightarrow> codeData \<Rightarrow> store \<Rightarrow> store" where
  "Map_set k v s \<equiv> AList.update k v s"

abbreviation Map_delete :: "string \<Rightarrow> store \<Rightarrow> store" where
  "Map_delete k s \<equiv> AList.delete k s"

text \<open>The representation invariant of a \<^verbatim>\<open>Map\<close>: no key twice.\<close>

definition wf_store :: "store \<Rightarrow> bool" where
  "wf_store s = distinct (map fst s)"

text \<open>
  \<^verbatim>\<open>generateCode\<close>: \<^verbatim>\<open>Math.floor(100000 + Math.random() * 900000).toString()\<close>. The
  argument is the value \<^verbatim>\<open>Math.random()\<close> returned, a double that is at least 0 and less
  than 1. The product and the sum are each rounded to a double; \<^verbatim>\<open>Math.floor\<close> of a
  double is exact, and an integer of this size prints as its decimal digits.
\<close>

definition generateCode :: "real \<Rightarrow> string" where
  "generateCode r = num_toString \<lfloor>round_double (100000 + round_double (r * 900000))\<rfloor>"

text \<open>
  \<^verbatim>\<open>cleanExpiredCodes\<close>: one clock reading, then a loop over the entries that deletes
  the key of every entry with \<^verbatim>\<open>now > data.expiresAt\<close>.
\<close>

definition cleanExpiredCodes :: "int \<Rightarrow> store \<Rightarrow> store" where
  "cleanExpiredCodes now s =
     fold (\<lambda>(code, data) acc. if now > expiresAt data then Map_delete code acc else acc) s s"

text \<open>
  \<^verbatim>\<open>do { code = generateCode(); } while (pendingCodes.has(code));\<close> Each round takes the
  next value of \<^verbatim>\<open>Math.random()\<close>; the loop has no bound of its own, and \<open>None\<close> says that
  it is still running when the given values are used up.
\<close>

fun generate_unique :: "real list \<Rightarrow> store \<Rightarrow> string option" where
  "generate_unique [] s = None"
| "generate_unique (r # rs) s =
     (let code = generateCode r in if Map_has s code then generate_unique rs s else Some code)"

section \<open>Requests, responses and the outside world\<close>

text \<open>
  What one invocation of a handler reads from outside: \<open>clock w k\<close> is the value of the
  \<open>k\<close>-th call of \<^verbatim>\<open>Date.now()\<close> (counted from 0), \<open>random w\<close> the successive values of
  \<^verbatim>\<open>Math.random()\<close> (doubles, at least 0 and less than 1), \<open>fetch_rejects w\<close> whether the request to the Telegram API throws,
  \<open>addUser_rejects w\<close> whether the Supabase call throws, and \<open>OPENCLAW_API_URL w\<close> the
  environment variable of that name.
\<close>

record world =
  clock :: "nat \<Rightarrow> int"
  random :: "real list"
  fetch_rejects :: bool
  addUser_rejects :: bool
  OPENCLAW_API_URL :: "string option"

record request =
  req_method :: string
  req_body :: jsval

text \<open>\<^verbatim>\<open>res.status(n).json(v)\<close>; the body of \<^verbatim>\<open>res.status(n).end()\<close> is \<open>JUndefined\<close>.\<close>

type_synonym response = "nat \<times> jsval"

definition ok_response :: response where
  "ok_response = (200, JObj [(''ok'', JBool True)])"

definition fail_response :: "nat \<Rightarrow> string \<Rightarrow> response" where
  "fail_response st msg = (st, JObj [(''success'', JBool False), (''error'', JStr msg)])"

definition sendTelegramMessage :: "world \<Rightarrow> js_error + unit" where
  "sendTelegramMessage w = (if fetch_rejects w then Inl FetchError else Inr ())"

definition addUser :: "world \<Rightarrow> js_error + unit" where
  "addUser w = (if addUser_rejects w then Inl FetchError else Inr ())"

text \<open>The end of a \<^verbatim>\<open>try\<close> block of a webhook handler: \<^verbatim>\<open>res.status(200).json({ ok: true })\<close>.\<close>

definition finish :: "js_error + 'a \<Rightarrow> js_error + response" where
  "finish m = (case m of Inl e \<Rightarrow> Inl e | Inr x \<Rightarrow> Inr ok_response)"

section \<open>api/webhook.js\<close>

text \<open>
  The default export \<^verbatim>\<open>handler\<close> (lines 40 to 125). The texts of the messages sent to
  Telegram are left out: \<^verbatim>\<open>sendTelegramMessage\<close> changes nothing in the registry, and
  all that the handler sees of it is whether it throws.

  Lines 52 to 56: the fields of the message, read before anything is changed.
\<close>

definition read_update :: "jsval \<Rightarrow> js_error + (jsval \<times> jsval \<times> jsval \<times> jsval \<times> string)" where
  "read_update message =
     try_bind (get_prop message ''chat'') (\<lambda>chat.
     try_bind (get_prop chat ''id'') (\<lambda>chat_id.
     try_bind (get_prop message ''from'') (\<lambda>sender.
     try_bind (get_prop sender ''id'') (\<lambda>user_id.
     try_bind (get_prop sender ''username'') (\<lambda>uname.
     try_bind (get_prop sender ''first_name'') (\<lambda>fname.
     try_bind (get_prop message ''text'') (\<lambda>text.
     try_bind (js_trim text) (\<lambda>t.
       Inr (chat_id, user_id, js_or uname (JStr []), js_or fname (JStr ''there''), t)))))))))"

text \<open>
  The \<^verbatim>\<open>try\<close> block of the handler. The result is the response, or the error thrown,
  with the registry as the block leaves it.
\<close>

definition webhook_try :: "world \<Rightarrow> jsval \<Rightarrow> store \<Rightarrow> ((js_error + response) \<times> store) option" where
  "webhook_try w body s =
     (case get_prop body ''message'' of
        Inl e \<Rightarrow> Some (Inl e, s)
      | Inr message \<Rightarrow>
          (if \<not> truthy message then Some (Inr ok_response, s)
           else
             (case get_prop message ''text'' of
                Inl e \<Rightarrow> Some (Inl e, s)
              | Inr text0 \<Rightarrow>
                  (if \<not> truthy text0 then Some (Inr ok_response, s)
                   else
                     (case read_update message of
                        Inl e \<Rightarrow> Some (Inl e, s)
                      | Inr (chat_id, user_id, uname, fname, text) \<Rightarrow>
                          (let s1 = cleanExpiredCodes (clock w 0) s in
                           if text = ''/start'' then
                             Some (finish (try_bind (js_toString fname)
                                             (\<lambda>greeting. sendTelegramMessage w)), s1)
                           else if text = ''/connect'' then
                             (case generate_unique (random w) s1 of
                                None \<Rightarrow> None
                              | Some code \<Rightarrow>
                                  (let s2 = Map_set code
                                        \<lparr> chatId = chat_id, userId = user_id, username = uname,
                                          firstName = fname, createdAt = Some (clock w 1),
                                          expiresAt = clock w 2 + CODE_EXPIRY_MS \<rparr> s1
                                   in Some (finish (try_bind (sendTelegramMessage w)
                                                      (\<lambda>sent. js_toString user_id)), s2)))
                           else if text = ''/help'' then Some (finish (sendTelegramMessage w), s1)
                           else Some (finish (sendTelegramMessage w), s1)))))))"

definition webhook_handler :: "world \<Rightarrow> request \<Rightarrow> store \<Rightarrow> (response \<times> store) option" where
  "webhook_handler w req s =
     (if req_method req \<noteq> ''POST'' then
        Some ((405, JObj [(''error'', JStr ''Method not allowed'')]), s)
      else case webhook_try w (req_body req) s of
        None \<Rightarrow> None
      | Some (Inr resp, s') \<Rightarrow> Some (resp, s')
      | Some (Inl e, s') \<Rightarrow> Some ((500, JObj [(''error'', JStr ''Internal error'')]), s'))"

section \<open>api/verify.js\<close>

text \<open>
  The default export \<^verbatim>\<open>handler\<close> (lines 13 to 94); it works on the map exported by
  \<^verbatim>\<open>api/webhook.js\<close>. The CORS headers are left out.

  Line 82: \<^verbatim>\<open>process.env.OPENCLAW_API_URL || 'https://api.openclaw.ai/v1'\<close>.
\<close>

definition api_endpoint :: "world \<Rightarrow> string" where
  "api_endpoint w =
     (case OPENCLAW_API_URL w of
        None \<Rightarrow> ''https://api.openclaw.ai/v1''
      | Some u \<Rightarrow> if u = [] then ''https://api.openclaw.ai/v1'' else u)"

text \<open>
  Lines 74 to 85: the success response. \<open>uid\<close> is the string of \<^verbatim>\<open>codeData.userId\<close> in
  the template literals of lines 71 and 83; the time stamp of the session token is the
  second clock reading of the invocation.
\<close>

definition verify_success :: "world \<Rightarrow> codeData \<Rightarrow> string \<Rightarrow> response" where
  "verify_success w data uid =
     (200, JObj
        [(''success'', JBool True),
         (''config'', JObj
            [(''userId'', userId data),
             (''chatId'', chatId data),
             (''username'', js_or (username data) JNull),
             (''firstName'', js_or (firstName data) JNull),
             (''apiEndpoint'', JStr (api_endpoint w)),
             (''sessionToken'', JStr (''cw_'' @ uid @ ''_'' @ num_toString (clock w 1)))])])"

definition verify_try :: "world \<Rightarrow> jsval \<Rightarrow> store \<Rightarrow> (js_error + response) \<times> store" where
  "verify_try w body s =
     (case get_prop body ''code'' of
        Inl e \<Rightarrow> (Inl e, s)
      | Inr code \<Rightarrow>
          (if \<not> truthy code then (Inr (fail_response 400 ''Code is required''), s)
           else
             (case js_toString code of
                Inl e \<Rightarrow> (Inl e, s)
              | Inr str \<Rightarrow>
                  (let codeStr = trim str in
                   if \<not> test_six_digits codeStr then
                     (Inr (fail_response 400 ''Invalid code format''), s)
                   else
                     (case Map_get s codeStr of
                        None \<Rightarrow> (Inr (fail_response 404 ''Invalid or expired code''), s)
                      | Some data \<Rightarrow>
                          (if clock w 0 > expiresAt data then
                             (Inr (fail_response 410
                                     ''Code has expired. Please request a new one.''),
                              Map_delete codeStr s)
                           else
                             (let s' = Map_delete codeStr s in
                              case js_toString (userId data) of
                                Inl e \<Rightarrow> (Inl e, s')
                              | Inr uid \<Rightarrow>
                                  (Inr (verify_success w data uid), s'))))))))"

definition verify_handler :: "world \<Rightarrow> request \<Rightarrow> store \<Rightarrow> response \<times> store" where
  "verify_handler w req s =
     (if req_method req = ''OPTIONS'' then ((200, JUndefined), s)
      else if req_method req \<noteq> ''POST'' then (fail_response 405 ''Method not allowed'', s)
      else case verify_try w (req_body req) s of
        (Inr resp, s') \<Rightarrow> (resp, s')
      | (Inl e, s') \<Rightarrow> (fail_response 500 ''Server error'', s'))"

section \<open>api/index.js\<close>

text \<open>
  The file holds two versions of the combined API, one after the other. The model follows
  the first (lines 1 to 342, the one with the Supabase helpers): its \<^verbatim>\<open>handleWebhook\<close>
  (lines 113 to 170) and \<^verbatim>\<open>handleVerify\<close> (lines 172 to 214), which share a map of their
  own, with \<^verbatim>\<open>generateCode\<close> and \<^verbatim>\<open>cleanExpiredCodes\<close> as in \<^verbatim>\<open>api/webhook.js\<close>. The
  second version (lines 344 to 590) repeats the handlers of \<^verbatim>\<open>api/webhook.js\<close> and
  \<^verbatim>\<open>api/verify.js\<close> in one file and is not modelled separately.

  \<^verbatim>\<open>handleWebhook\<close>, lines 118 to 120: the fields read before the sweep; lines 138 and
  139: the fields of \<^verbatim>\<open>message.from\<close> read when the record is built.
\<close>

definition read_update_index :: "jsval \<Rightarrow> js_error + (jsval \<times> jsval \<times> jsval \<times> string)" where
  "read_update_index message =
     try_bind (get_prop message ''chat'') (\<lambda>chat.
     try_bind (get_prop chat ''id'') (\<lambda>chat_id.
     try_bind (get_prop message ''from'') (\<lambda>sender.
     try_bind (get_prop sender ''first_name'') (\<lambda>fname.
     try_bind (get_prop message ''text'') (\<lambda>text.
     try_bind (js_trim text) (\<lambda>t.
       Inr (chat_id, sender, js_or fname (JStr ''there''), t)))))))"

definition read_sender :: "jsval \<Rightarrow> js_error + (jsval \<times> jsval)" where
  "read_sender sender =
     try_bind (get_prop sender ''id'') (\<lambda>user_id.
     try_bind (get_prop sender ''username'') (\<lambda>uname.
       Inr (user_id, uname)))"

definition handleWebhook_try :: "world \<Rightarrow> jsval \<Rightarrow> store \<Rightarrow> ((js_error + response) \<times> store) option" where
  "handleWebhook_try w body s =
     (case get_prop body ''message'' of
        Inl e \<Rightarrow> Some (Inl e, s)
      | Inr message \<Rightarrow>
          (if \<not> truthy message then Some (Inr ok_response, s)
           else
             (case get_prop message ''text'' of
                Inl e \<Rightarrow> Some (Inl e, s)
              | Inr text0 \<Rightarrow>
                  (if \<not> truthy text0 then Some (Inr ok_response, s)
                   else
                     (case read_update_index message of
                        Inl e \<Rightarrow> Some (Inl e, s)
                      | Inr (chat_id, sender, fname, text) \<Rightarrow>
                          (let s1 = cleanExpiredCodes (clock w 0) s in
                           if text = ''/start'' then
                             Some (finish (try_bind (js_toString fname)
                                             (\<lambda>greeting. sendTelegramMessage w)), s1)
                           else if text = ''/connect'' then
                             (case generate_unique (random w) s1 of
                                None \<Rightarrow> None
                              | Some code \<Rightarrow>
                                  (case read_sender sender of
                                     Inl e \<Rightarrow> Some (Inl e, s1)
                                   | Inr (user_id, uname) \<Rightarrow>
                                       (let s2 = Map_set code
                                             \<lparr> chatId = chat_id, userId = user_id,
                                               username = uname, firstName = fname,
                                               createdAt = None,
                                               expiresAt = clock w 1 + CODE_EXPIRY_MS \<rparr> s1
                                        in Some (finish (sendTelegramMessage w), s2))))
                           else if text = ''/help'' then Some (finish (sendTelegramMessage w), s1)
                           else Some (finish (sendTelegramMessage w), s1)))))))"

definition handleWebhook :: "world \<Rightarrow> request \<Rightarrow> store \<Rightarrow> (response \<times> store) option" where
  "handleWebhook w req s =
     (case handleWebhook_try w (req_body req) s of
        None \<Rightarrow> None
      | Some (Inr resp, s') \<Rightarrow> Some (resp, s')
      | Some (Inl e, s') \<Rightarrow> Some ((500, JObj [(''error'', JStr ''Internal error'')]), s'))"

text \<open>\<^verbatim>\<open>handleVerify\<close>, lines 201 to 209: the success response.\<close>

definition index_success :: "codeData \<Rightarrow> response" where
  "index_success data =
     (200, JObj
        [(''success'', JBool True),
         (''config'', JObj
            [(''userId'', userId data),
             (''chatId'', chatId data),
             (''username'', js_or (username data) JNull),
             (''firstName'', js_or (firstName data) JNull)])])"

definition handleVerify_try :: "world \<Rightarrow> jsval \<Rightarrow> store \<Rightarrow> (js_error + response) \<times> store" where
  "handleVerify_try w body s =
     (case get_prop body ''code'' of
        Inl e \<Rightarrow> (Inl e, s)
      | Inr code \<Rightarrow>
          (if \<not> truthy code then (Inr (fail_response 400 ''Code required''), s)
           else
             (case js_toString code of
                Inl e \<Rightarrow> (Inl e, s)
              | Inr str \<Rightarrow>
                  (let codeStr = trim str in
                   if \<not> test_six_digits codeStr then
                     (Inr (fail_response 400 ''Invalid code format''), s)
                   else
                     (let s1 = cleanExpiredCodes (clock w 0) s in
                      case Map_get s1 codeStr of
                        None \<Rightarrow>
                          (Inr (fail_response 404 ''Invalid or expired code''),
                           Map_delete codeStr s1)
                      | Some data \<Rightarrow>
                          (if clock w 1 > expiresAt data then
                             (Inr (fail_response 404 ''Invalid or expired code''),
                              Map_delete codeStr s1)
                           else
                             (case addUser w of
                                Inl e \<Rightarrow> (Inl e, s1)
                              | Inr added \<Rightarrow>
                                  (let s2 = Map_delete codeStr s1 in
                                   case js_toString (chatId data) of
                                     Inl e \<Rightarrow> (Inl e, s2)
                                   | Inr logged \<Rightarrow>
                                       (Inr (index_success data), s2)))))))))"

definition handleVerify :: "world \<Rightarrow> request \<Rightarrow> store \<Rightarrow> response \<times> store" where
  "handleVerify w req s =
     (if req_method req = ''OPTIONS'' then ((200, JUndefined), s)
      else case handleVerify_try w (req_body req) s of
        (Inr resp, s') \<Rightarrow> (resp, s')
      | (Inl e, s') \<Rightarrow> (fail_response 500 ''Server error'', s'))"

section \<open>Notions used to state the properties\<close>

definition status_of :: "response \<Rightarrow> nat" where
  "status_of r = fst r"

text \<open>A response is a success when its body carries \<^verbatim>\<open>success: true\<close>.\<close>

definition is_success :: "response \<Rightarrow> bool" where
  "is_success r = (get_prop (snd r) ''success'' = Inr (JBool True))"

text \<open>
  The code a verify request asks for: \<^verbatim>\<open>code.toString().trim()\<close> of a truthy
  \<^verbatim>\<open>req.body.code\<close>, as both verify handlers compute it before they look anything up.
\<close>

definition requested_code :: "request \<Rightarrow> string option" where
  "requested_code req =
     (case get_prop (req_body req) ''code'' of
        Inl e \<Rightarrow> None
      | Inr code \<Rightarrow>
          (if \<not> truthy code then None
           else (case js_toString code of Inl e \<Rightarrow> None | Inr str \<Rightarrow> Some (trim str))))"

text \<open>A record is expired at a clock reading when the handlers' test \<^verbatim>\<open>now > expiresAt\<close> holds.\<close>

definition expired :: "int \<Rightarrow> codeData \<Rightarrow> bool" where
  "expired now data = (now > expiresAt data)"

text \<open>
  A sequence of calls to a deployment. \<^verbatim>\<open>api/webhook.js\<close> and \<^verbatim>\<open>api/verify.js\<close> share one
  map (the second imports it from the first); \<^verbatim>\<open>api/index.js\<close> has a map of its own for
  its two handlers. \<open>run\<close> gives, for each call, the response and the registry after it;
  it is \<open>None\<close> when a call does not return.
\<close>

datatype call = Webhook world request | Verify world request

fun step_files :: "call \<Rightarrow> store \<Rightarrow> (response \<times> store) option" where
  "step_files (Webhook w req) s = webhook_handler w req s"
| "step_files (Verify w req) s = Some (verify_handler w req s)"

fun step_index :: "call \<Rightarrow> store \<Rightarrow> (response \<times> store) option" where
  "step_index (Webhook w req) s = handleWebhook w req s"
| "step_index (Verify w req) s = Some (handleVerify w req s)"

fun run :: "(call \<Rightarrow> store \<Rightarrow> (response \<times> store) option) \<Rightarrow> call list \<Rightarrow> store
    \<Rightarrow> (response \<times> store) list option" where
  "run step [] s = Some []"
| "run step (c # cs) s =
     (case step c s of
        None \<Rightarrow> None
      | Some (r, s1) \<Rightarrow>
          (case run step cs s1 of None \<Rightarrow> None | Some out \<Rightarrow> Some ((r, s1) # out)))"

text \<open>The registries a deployment can reach from the empty map of a fresh process.\<close>

inductive reachable :: "(call \<Rightarrow> store \<Rightarrow> (response \<times> store) option) \<Rightarrow> store \<Rightarrow> bool"
  for step :: "call \<Rightarrow> store \<Rightarrow> (response \<times> store) option" where
  reachable_init: "reachable step []"
| reachable_step: "reachable step s \<Longrightarrow> step c s = Some (r, s') \<Longrightarrow> reachable step s'"

section \<open>Example data\<close>

text \<open>
  The scenario of the specification: code \<open>482913\<close> issued at time 0 for the owner with
  id 42 in chat 42.
\<close>

definition ex_data :: codeData where
  "ex_data = \<lparr> chatId = JNum 42, userId = JNum 42, username = JStr [],
               firstName = JStr ''Ann'', createdAt = Some 0, expiresAt = 300000 \<rparr>"

definition ex_other :: codeData where
  "ex_other = \<lparr> chatId = JNum 7, userId = JNum 7, username = JStr ''bob'',
                firstName = JStr ''Bob'', createdAt = Some 2000, expiresAt = 302000 \<rparr>"

definition ex_store :: store where
  "ex_store = [(''482913'', ex_data), (''120077'', ex_other)]"

definition ex_world :: "int \<Rightarrow> world" where
  "ex_world t = \<lparr> clock = (\<lambda>k. t), random = [446127 / 1048576, 1 / 2],
                  fetch_rejects = False, addUser_rejects = False, OPENCLAW_API_URL = None \<rparr>"

definition ex_verify :: "string \<Rightarrow> request" where
  "ex_verify c = \<lparr> req_method = ''POST'', req_body = JObj [(''code'', JStr c)] \<rparr>"

definition ex_update :: "string \<Rightarrow> request" where
  "ex_update t =
     \<lparr> req_method = ''POST'',
       req_body = JObj [(''message'', JObj
         [(''text'', JStr t),
          (''chat'', JObj [(''id'', JNum 42)]),
          (''from'', JObj [(''id'', JNum 42), (''first_name'', JStr ''Ann'')])])] \<rparr>"

text \<open>A clock that advances by one millisecond between two readings.\<close>

definition ex_tick :: world where
  "ex_tick = \<lparr> clock = (\<lambda>k. 1000 + int k), random = [446127 / 1048576, 1 / 2],
               fetch_rejects = False, addUser_rejects = False, OPENCLAW_API_URL = None \<rparr>"

text \<open>A POST with an arbitrary body, and a record whose user id is an object.\<close>

definition ex_post :: "jsval \<Rightarrow> request" where
  "ex_post b = \<lparr> req_method = ''POST'', req_body = b \<rparr>"

definition ex_odd_data :: codeData where
  "ex_odd_data = \<lparr> chatId = JNum 42, userId = JObj [(''toString'', JNum 1)],
                   username = JStr [], firstName = JStr ''Ann'', createdAt = Some 0,
                   expiresAt = 300000 \<rparr>"

section \<open>Evaluation and library facts\<close>

lemma nat_toString_small: "n < 10 \<Longrightarrow> nat_toString n = [digit_char n]"
  by (subst nat_toString.simps) simp

lemma nat_toString_big:
  "\<not> n < 10 \<Longrightarrow> nat_toString n = nat_toString (n div 10) @ [digit_char (n mod 10)]"
  by (subst nat_toString.simps) simp

lemma digit_char_is_digit: "d < 10 \<Longrightarrow> is_digit (digit_char d)"
proof -
  assume "d < 10"
  then have "d \<in> {0, 1, 2, 3, 4, 5, 6, 7, 8, 9}" by auto
  then show ?thesis by (auto simp: is_digit_def digit_char_def)
qed

lemma nat_toString_digits: "list_all is_digit (nat_toString n)"
proof (induction n rule: nat_toString.induct)
  case (1 n)
  show ?case
  proof (cases "n < 10")
    case True
    then show ?thesis by (simp add: nat_toString_small digit_char_is_digit)
  next
    case False
    then show ?thesis using 1 by (simp add: nat_toString_big digit_char_is_digit)
  qed
qed

lemma nat_toString_length:
  "10 ^ k \<le> n \<Longrightarrow> n < 10 ^ Suc k \<Longrightarrow> length (nat_toString n) = Suc k"
proof (induction k arbitrary: n)
  case 0
  then show ?case by (simp add: nat_toString_small)
next
  case (Suc k)
  have big: "\<not> n < 10"
  proof
    assume "n < 10"
    with Suc.prems(1) have "(10::nat) ^ Suc k < 10" by (rule le_less_trans)
    then have "(10::nat) ^ Suc k < 10 ^ 1" by (simp only: power_one_right)
    then have "Suc k < 1" by (rule power_less_imp_less_exp [rotated]) simp
    then show False by simp
  qed
  have lo: "10 ^ k \<le> n div 10" using Suc.prems(1) by (simp add: less_eq_div_iff_mult_less_eq)
  have hi: "n div 10 < 10 ^ Suc k" using Suc.prems(2) by (simp add: div_less_iff_less_mult)
  show ?case using Suc.IH [OF lo hi] big by (simp add: nat_toString_big)
qed

lemma nat_toString_nonempty: "nat_toString n \<noteq> []"
  by (cases "n < 10") (simp_all add: nat_toString_small nat_toString_big)

lemma digit_char_nonzero: "0 < d \<Longrightarrow> d < 10 \<Longrightarrow> digit_char d \<noteq> CHR ''0''"
proof -
  assume "0 < d" "d < 10"
  then have "d \<in> {1, 2, 3, 4, 5, 6, 7, 8, 9}" by auto
  then show ?thesis by (auto simp: digit_char_def)
qed

lemma nat_toString_hd: "0 < n \<Longrightarrow> hd (nat_toString n) \<noteq> CHR ''0''"
proof (induction n rule: nat_toString.induct)
  case (1 n)
  show ?case
  proof (cases "n < 10")
    case True
    then show ?thesis using 1(2) by (simp add: nat_toString_small digit_char_nonzero)
  next
    case False
    then have "0 < n div 10" by (simp add: div_greater_zero_iff)
    with 1(1) False have "hd (nat_toString (n div 10)) \<noteq> CHR ''0''" by simp
    then show ?thesis using False by (simp add: nat_toString_big nat_toString_nonempty)
  qed
qed

lemma six_digits_of_range:
  assumes "100000 \<le> n" "n \<le> (999999::int)"
  shows "test_six_digits (num_toString n) \<and> hd (num_toString n) \<noteq> CHR ''0''"
proof -
  have eq: "num_toString n = nat_toString (nat n)" using assms by (simp add: num_toString_def)
  have "10 ^ 5 \<le> nat n" "nat n < 10 ^ Suc 5" using assms by simp_all
  then have "length (nat_toString (nat n)) = Suc 5" by (rule nat_toString_length)
  moreover have "0 < nat n" using assms by simp
  ultimately show ?thesis
    by (simp add: eq test_six_digits_def nat_toString_digits nat_toString_hd)
qed

subsection \<open>Rounding to a double\<close>

lemma round_even_le: "x \<le> of_int n \<Longrightarrow> round_even x \<le> n"
  unfolding round_even_def Let_def by (auto; linarith)

lemma round_even_ge: "of_int n \<le> x \<Longrightarrow> n \<le> round_even x"
  unfolding round_even_def Let_def by (auto; linarith)

lemma round_even_less_half: "x < of_int n - 1 / 2 \<Longrightarrow> round_even x \<le> n - 1"
  unfolding round_even_def Let_def by (auto; linarith)

lemma round_even_of_int: "round_even (of_int n) = n"
  unfolding round_even_def Let_def by simp

lemma binade_bounds:
  assumes "0 < x"
  shows "power_int 2 (binade x) \<le> x \<and> x < power_int 2 (binade x + 1)"
proof (cases "1 \<le> x")
  case True
  define n where "n = nat \<lfloor>x\<rfloor>"
  have n: "0 < n" "real n \<le> x" "x < real n + 1"
    using True by (simp_all add: n_def)
  define l where "l = floorlog 2 n"
  have b: "2 ^ (l - 1) \<le> n" "n < 2 ^ l"
    using floorlog_bounds [of n 2] n(1) by (simp_all add: l_def)
  have l: "0 < l" using b n(1) by (cases l) simp_all
  have e: "binade x = int l - 1" using True by (simp add: binade_def n_def l_def)
  have p1: "power_int 2 (int l - 1) = (2::real) ^ (l - 1)"
    using l by (simp add: power_int_def nat_diff_distrib')
  have p2: "power_int 2 (int l - 1 + 1) = (2::real) ^ l"
    by simp
  have lo: "(2::real) ^ (l - 1) \<le> real n"
    using b(1) by (metis of_nat_le_iff of_nat_numeral of_nat_power)
  have hi: "real n + 1 \<le> 2 ^ l"
  proof -
    have "n + 1 \<le> 2 ^ l" using b(2) by simp
    then have "real (n + 1) \<le> real (2 ^ l)" by (rule of_nat_mono)
    then show ?thesis by simp
  qed
  have "power_int 2 (int l - 1) \<le> x" using p1 lo n(2) by linarith
  moreover have "x < power_int 2 (int l - 1 + 1)" using p2 hi n(3) by linarith
  ultimately show ?thesis unfolding e by (rule conjI)
next
  case False
  define m where "m = \<lceil>1 / x\<rceil>"
  have x1: "1 < 1 / x" using False assms by simp
  have m: "1 / x \<le> of_int m" "of_int m - 1 < 1 / x"
    by (simp_all add: m_def) linarith+
  have m2: "2 \<le> m" using x1 m(1) by linarith
  define n where "n = nat (m - 1)"
  have n: "0 < n" "int n = m - 1" using m2 by (simp_all add: n_def)
  define l where "l = floorlog 2 n"
  have b: "2 ^ (l - 1) \<le> n" "n < 2 ^ l"
    using floorlog_bounds [of n 2] n(1) by (simp_all add: l_def)
  have l: "0 < l" using b n(1) by (cases l) simp_all
  have e: "binade x = - int l" using False by (simp add: binade_def n_def l_def m_def)
  have lo: "real n < 1 / x" using m(2) n(2) by (metis of_int_of_nat_eq of_int_diff of_int_1)
  have hi: "1 / x \<le> real n + 1"
    using m(1) n(2) by (metis diff_add_cancel of_int_of_nat_eq of_int_add of_int_1)
  have hi2: "real n + 1 \<le> 2 ^ l"
  proof -
    have "n + 1 \<le> 2 ^ l" using b(2) by simp
    then have "real (n + 1) \<le> real (2 ^ l)" by (rule of_nat_mono)
    then show ?thesis by simp
  qed
  have lo2: "(2::real) ^ (l - 1) \<le> real n"
    using b(1) by (metis of_nat_le_iff of_nat_numeral of_nat_power)
  have p1: "power_int 2 (- int l) = 1 / (2::real) ^ l"
    by (simp add: power_int_minus_divide)
  have p2: "power_int 2 (- int l + 1) = 1 / (2::real) ^ (l - 1)"
  proof -
    have "- int l + 1 = - int (l - 1)" using l by simp
    then show ?thesis by (simp only: power_int_minus_divide power_int_of_nat)
  qed
  have a1: "1 / (2::real) ^ l \<le> x"
  proof -
    have "1 / x \<le> 2 ^ l" using hi hi2 by linarith
    then show ?thesis using assms by (simp add: field_simps)
  qed
  have a2: "x < 1 / (2::real) ^ (l - 1)"
  proof -
    have "(2::real) ^ (l - 1) < 1 / x" using lo lo2 by linarith
    then show ?thesis using assms by (simp add: field_simps)
  qed
  have "power_int 2 (- int l) \<le> x" using a1 p1 by linarith
  moreover have "x < power_int 2 (- int l + 1)" using a2 p2 by linarith
  ultimately show ?thesis unfolding e by (rule conjI)
qed

lemma binade_le:
  assumes "0 < x" "x < power_int 2 (k + 1)"
  shows "binade x \<le> k"
proof (rule ccontr)
  assume "\<not> binade x \<le> k"
  then have "k + 1 \<le> binade x" by simp
  then have "power_int (2::real) (k + 1) \<le> power_int 2 (binade x)"
    by (rule power_int_increasing) simp
  then show False using binade_bounds [OF assms(1)] assms(2) by linarith
qed

lemma binade_ge:
  assumes "0 < x" "power_int 2 k \<le> x"
  shows "k \<le> binade x"
proof (rule ccontr)
  assume "\<not> k \<le> binade x"
  then have "binade x + 1 \<le> k" by simp
  then have "power_int (2::real) (binade x + 1) \<le> power_int 2 k"
    by (rule power_int_increasing) simp
  then show False using binade_bounds [OF assms(1)] assms(2) by linarith
qed

lemma binade_eq:
  "0 < x \<Longrightarrow> power_int 2 k \<le> x \<Longrightarrow> x < power_int 2 (k + 1) \<Longrightarrow> binade x = k"
  using binade_le [of x k] binade_ge [of x k] by simp

lemma ulp_pos: "0 < ulp x"
  by (simp add: ulp_def)

lemma ulp_grid:
  assumes "0 < x" "x < power_int 2 (k + 1)" "- 1022 \<le> k"
  shows "\<exists>M::int. of_int m * power_int 2 (k - 52) = of_int M * ulp x"
proof -
  define e where "e = max (binade x) (- 1022)"
  have "binade x \<le> k" using assms(1,2) by (rule binade_le)
  then have le: "e \<le> k" using assms(3) by (simp add: e_def)
  have "power_int (2::real) (k - 52) = power_int 2 ((k - e) + (e - 52))" by simp
  also have "\<dots> = power_int 2 (k - e) * power_int 2 (e - 52)"
    by (rule power_int_add) simp
  also have "power_int (2::real) (k - e) = 2 ^ nat (k - e)"
    using le by (simp add: power_int_nonneg_exp)
  finally have "of_int m * power_int 2 (k - 52) = of_int (m * 2 ^ nat (k - e)) * ulp x"
    using assms(1) by (simp add: ulp_def e_def)
  then show ?thesis ..
qed

lemma round_double_le_ulp:
  assumes "0 < x" "x \<le> of_int M * ulp x"
  shows "round_double x \<le> of_int M * ulp x"
proof -
  have "x / ulp x \<le> of_int M" using assms(2) ulp_pos [of x] by (simp add: pos_divide_le_eq)
  then have "round_even (x / ulp x) \<le> M" by (rule round_even_le)
  then have "of_int (round_even (x / ulp x)) * ulp x \<le> of_int M * ulp x"
    using ulp_pos [of x] by simp
  then show ?thesis using assms(1) by (simp add: round_double_def)
qed

lemma round_double_ge_ulp:
  assumes "0 < x" "of_int M * ulp x \<le> x"
  shows "of_int M * ulp x \<le> round_double x"
proof -
  have "of_int M \<le> x / ulp x" using assms(2) ulp_pos [of x] by (simp add: pos_le_divide_eq)
  then have "M \<le> round_even (x / ulp x)" by (rule round_even_ge)
  then have "of_int M * ulp x \<le> of_int (round_even (x / ulp x)) * ulp x"
    using ulp_pos [of x] by simp
  then show ?thesis using assms(1) by (simp add: round_double_def)
qed

lemma round_double_le_grid:
  assumes "0 < x" "x < power_int 2 (k + 1)" "- 1022 \<le> k" "x \<le> of_int m * power_int 2 (k - 52)"
  shows "round_double x \<le> of_int m * power_int 2 (k - 52)"
proof -
  obtain M :: int where M: "of_int m * power_int 2 (k - 52) = of_int M * ulp x"
    using ulp_grid [OF assms(1,2,3)] by blast
  show ?thesis using round_double_le_ulp [of x M] assms(1,4) M by simp
qed

lemma round_double_ge_grid:
  assumes "0 < x" "x < power_int 2 (k + 1)" "- 1022 \<le> k" "of_int m * power_int 2 (k - 52) \<le> x"
  shows "of_int m * power_int 2 (k - 52) \<le> round_double x"
proof -
  obtain M :: int where M: "of_int m * power_int 2 (k - 52) = of_int M * ulp x"
    using ulp_grid [OF assms(1,2,3)] by blast
  show ?thesis using round_double_ge_ulp [of x M] assms(1,4) M by simp
qed

lemma round_double_binade:
  assumes "0 < x" "power_int 2 k \<le> x" "x < power_int 2 (k + 1)" "- 1022 \<le> k"
  shows "round_double x = of_int (round_even (x / power_int 2 (k - 52))) * power_int 2 (k - 52)"
proof -
  have "binade x = k" using assms(1,2,3) by (rule binade_eq)
  then have "ulp x = power_int 2 (k - 52)" using assms(1,4) by (simp add: ulp_def)
  then show ?thesis using assms(1) by (simp add: round_double_def)
qed

lemma round_double_exact:
  assumes "0 < x" "x < power_int 2 (k + 1)" "- 1022 \<le> k" "x = of_int m * power_int 2 (k - 52)"
  shows "round_double x = x"
  using round_double_le_grid [OF assms(1,2,3), of m] round_double_ge_grid [OF assms(1,2,3), of m]
    assms(4) by simp


lemma double_below_one:
  assumes "is_double r" "0 \<le> r" "r < 1"
  shows "r \<le> 1 - 1 / 2 ^ 53"
proof (cases "r < 1 / 2")
  case True
  then show ?thesis by simp
next
  case False
  then have pos: "0 < r" and lo: "power_int 2 (- 1) \<le> r" by simp_all
  have hi: "r < power_int 2 (- 1 + 1)" using assms(3) by simp
  define M where "M = round_even (r / power_int 2 (- 1 - 52))"
  have "round_double r = of_int M * power_int 2 (- 1 - 52)"
    unfolding M_def using pos lo hi by (rule round_double_binade) simp
  then have r: "r = of_int M / 2 ^ 53"
    using assms(1) by (simp add: is_double_def power_int_minus_divide)
  then have "of_int M < (2::real) ^ 53" using assms(3) by (simp add: field_simps)
  then have "M < 2 ^ 53" by (metis of_int_less_iff of_int_numeral of_int_power)
  then have "M \<le> 2 ^ 53 - 1" by simp
  then have "(of_int M :: real) \<le> of_int (2 ^ 53 - 1)" by (simp only: of_int_le_iff)
  then have "(of_int M :: real) \<le> 2 ^ 53 - 1" by simp
  then have "of_int M / 2 ^ 53 \<le> ((2::real) ^ 53 - 1) / 2 ^ 53"
    by (simp add: divide_right_mono)
  then show ?thesis using r by (simp add: field_simps)
qed

lemma product_bound:
  assumes "0 \<le> r" "r \<le> 1 - 1 / 2 ^ 53"
  shows "0 \<le> round_double (r * 900000) \<and> round_double (r * 900000) \<le> 900000 - 1 / 2 ^ 33"
proof -
  define p where "p = r * 900000"
  have p0: "0 \<le> p" using assms(1) by (simp add: p_def)
  have pu: "p \<le> 900000 - 900000 / 2 ^ 53" using assms(2) by (simp add: p_def field_simps)
  consider "p = 0" | "0 < p" "p < 2 ^ 19" | "2 ^ 19 \<le> p" using p0 by linarith
  then have "0 \<le> round_double p \<and> round_double p \<le> 900000 - 1 / 2 ^ 33"
  proof cases
    case 1
    then show ?thesis by (simp add: round_double_def)
  next
    case 2
    have hi: "p < power_int 2 (18 + 1)" using 2(2) by simp
    have "round_double p \<le> of_int (2 ^ 53) * power_int 2 (18 - 52)"
      using 2(1) hi by (rule round_double_le_grid) (use 2(2) in \<open>simp_all add: power_int_minus_divide\<close>)
    then have a: "round_double p \<le> 2 ^ 19" by (simp add: power_int_minus_divide)
    have "of_int 0 * power_int 2 (18 - 52) \<le> round_double p"
      using 2(1) hi by (rule round_double_ge_grid) (use 2(1) in simp_all)
    then have b: "0 \<le> round_double p" by simp
    show ?thesis using a b by simp
  next
    case 3
    have pos: "0 < p" using 3 by simp
    have lo: "power_int 2 19 \<le> p" using 3 by simp
    have hi: "p < power_int 2 (19 + 1)" using pu by simp
    define N :: int where "N = 900000 * 2 ^ 33"
    have rd: "round_double p = of_int (round_even (p / power_int 2 (19 - 52))) * power_int 2 (19 - 52)"
      using pos lo hi by (rule round_double_binade) simp
    have "p / power_int 2 (19 - 52) = p * 2 ^ 33" by (simp add: power_int_minus_divide)
    also have "\<dots> \<le> (900000 - 900000 / 2 ^ 53) * 2 ^ 33" using pu by simp
    also have "\<dots> < of_int N - 1 / 2" by (simp add: N_def)
    finally have "round_even (p / power_int 2 (19 - 52)) \<le> N - 1" by (rule round_even_less_half)
    then have "(of_int (round_even (p / power_int 2 (19 - 52))) :: real) \<le> of_int (N - 1)"
      by (simp only: of_int_le_iff)
    then have "of_int (round_even (p / power_int 2 (19 - 52))) * power_int 2 (19 - 52)
        \<le> (of_int (N - 1) :: real) * power_int 2 (19 - 52)"
      by (rule mult_right_mono) simp
    then have a: "round_double p \<le> 900000 - 1 / 2 ^ 33"
      unfolding rd by (simp add: N_def power_int_minus_divide)
    have "of_int 0 * power_int 2 (19 - 52) \<le> round_double p"
      using pos hi by (rule round_double_ge_grid) (use pos in simp_all)
    then show ?thesis using a by simp
  qed
  then show ?thesis by (simp only: p_def)
qed

lemma sum_bound:
  assumes "0 \<le> q" "q \<le> 900000 - 1 / 2 ^ 33"
  shows "100000 \<le> round_double (100000 + q) \<and> round_double (100000 + q) \<le> 1000000 - 1 / 2 ^ 33"
proof -
  define x where "x = 100000 + q"
  have pos: "0 < x" and lo: "100000 \<le> x" and up: "x \<le> 1000000 - 1 / 2 ^ 33"
    using assms by (simp_all add: x_def)
  have hi: "x < power_int 2 (19 + 1)" using up by simp
  have g1: "of_int (100000 * 2 ^ 33) * power_int 2 (19 - 52) = (100000::real)"
    by (simp add: power_int_minus_divide)
  have g2: "of_int (1000000 * 2 ^ 33 - 1) * power_int 2 (19 - 52) = (1000000 - 1 / 2 ^ 33 :: real)"
    by (simp add: power_int_minus_divide)
  have "of_int (100000 * 2 ^ 33) * power_int 2 (19 - 52) \<le> round_double x"
    using pos hi by (rule round_double_ge_grid) (use lo g1 in simp_all)
  moreover have "round_double x \<le> of_int (1000000 * 2 ^ 33 - 1) * power_int 2 (19 - 52)"
    using pos hi by (rule round_double_le_grid) (use up g2 in simp_all)
  ultimately show ?thesis unfolding g1 g2 x_def by simp
qed

lemma double_code_range:
  assumes "is_double r" "0 \<le> r" "r < 1"
  shows "100000 \<le> \<lfloor>round_double (100000 + round_double (r * 900000))\<rfloor>
       \<and> \<lfloor>round_double (100000 + round_double (r * 900000))\<rfloor> \<le> 999999"
proof -
  have "r \<le> 1 - 1 / 2 ^ 53" using assms by (rule double_below_one)
  with assms(2) have q: "0 \<le> round_double (r * 900000)"
      "round_double (r * 900000) \<le> 900000 - 1 / 2 ^ 33"
    using product_bound by blast+
  define y where "y = round_double (100000 + round_double (r * 900000))"
  have y: "100000 \<le> y" "y \<le> 1000000 - 1 / 2 ^ 33"
    unfolding y_def using sum_bound [OF q] by blast+
  have "y < 1000000" using y(2) by simp
  then have "\<lfloor>y\<rfloor> < 1000000" by (simp add: floor_less_iff)
  moreover have "100000 \<le> \<lfloor>y\<rfloor>" using y(1) by (simp add: le_floor_iff)
  ultimately show ?thesis unfolding y_def by simp
qed

lemma is_double_grid:
  assumes "0 < x" "x < power_int 2 (k + 1)" "- 1022 \<le> k" "k < 1024"
    "x = of_int m * power_int 2 (k - 52)"
  shows "is_double x"
proof -
  have "round_double x = x" using assms(1,2,3,5) by (rule round_double_exact)
  moreover have "power_int (2::real) (k + 1) \<le> power_int 2 1024"
    by (rule power_int_increasing) (use assms(4) in simp_all)
  ultimately show ?thesis using assms(1,2) by (simp add: is_double_def)
qed

lemma ex_is_double:
  "is_double (1 / 2)"
  "is_double (446127 / 1048576)"
  "is_double (18164518497061 / 2 ^ 53)"
proof -
  show "is_double (1 / 2)"
    by (rule is_double_grid [where k = "- 1" and m = "2 ^ 52"])
       (simp_all add: power_int_minus_divide)
  show "is_double (446127 / 1048576)"
    by (rule is_double_grid [where k = "- 2" and m = "446127 * 2 ^ 34"])
       (simp_all add: power_int_minus_divide)
  show "is_double (18164518497061 / 2 ^ 53)"
    by (rule is_double_grid [where k = "- 9" and m = "18164518497061 * 2 ^ 8"])
       (simp_all add: power_int_minus_divide)
qed

lemma ex_round_product:
  "round_double (1 / 2 * 900000) = 450000"
  "round_double (446127 / 1048576 * 900000) = 12547321875 / 32768"
  "round_double (18164518497061 / 2 ^ 53 * 900000) = 1815"
proof -
  have "round_double 450000 = 450000"
    by (rule round_double_exact [where k = 18 and m = "450000 * 2 ^ 34"])
       (simp_all add: power_int_minus_divide)
  then show "round_double (1 / 2 * 900000) = 450000" by simp
  have "round_double (12547321875 / 32768) = 12547321875 / 32768"
    by (rule round_double_exact [where k = 18 and m = "12547321875 * 2 ^ 19"])
       (simp_all add: power_int_minus_divide)
  then show "round_double (446127 / 1048576 * 900000) = 12547321875 / 32768" by simp
  have "round_double (18164518497061 / 2 ^ 53 * 900000)
      = of_int (round_even (18164518497061 / 2 ^ 53 * 900000 / power_int 2 (10 - 52)))
        * power_int 2 (10 - 52)"
    by (rule round_double_binade) simp_all
  also have "round_even (18164518497061 / 2 ^ 53 * 900000 / power_int 2 (10 - 52)) = 1815 * 2 ^ 42"
    by (simp add: round_even_def Let_def power_int_minus_divide)
  finally show "round_double (18164518497061 / 2 ^ 53 * 900000) = 1815"
    by (simp add: power_int_minus_divide)
qed

lemma ex_round_sum:
  "round_double (100000 + 450000) = 550000"
  "round_double (100000 + 12547321875 / 32768) = 15824121875 / 32768"
  "round_double (100000 + 1815) = 101815"
proof -
  have "round_double 550000 = 550000"
    by (rule round_double_exact [where k = 19 and m = "550000 * 2 ^ 33"])
       (simp_all add: power_int_minus_divide)
  then show "round_double (100000 + 450000) = 550000" by simp
  have "round_double (15824121875 / 32768) = 15824121875 / 32768"
    by (rule round_double_exact [where k = 18 and m = "15824121875 * 2 ^ 19"])
       (simp_all add: power_int_minus_divide)
  then show "round_double (100000 + 12547321875 / 32768) = 15824121875 / 32768" by simp
  have "round_double 101815 = 101815"
    by (rule round_double_exact [where k = 16 and m = "101815 * 2 ^ 36"])
       (simp_all add: power_int_minus_divide)
  then show "round_double (100000 + 1815) = 101815" by simp
qed

subsection \<open>The sweep\<close>

lemma sweep_fold:
  "fold (\<lambda>(code, data) acc. if now > expiresAt data then Map_delete code acc else acc) xs acc
   = filter (\<lambda>(c, d). \<not> (\<exists>d'. (c, d') \<in> set xs \<and> now > expiresAt d')) acc"
proof (induction xs arbitrary: acc)
  case Nil
  then show ?case by simp
next
  case (Cons p xs)
  obtain c d where p: "p = (c, d)" by (cases p)
  show ?case
  proof (cases "now > expiresAt d")
    case True
    have "filter (\<lambda>(c', d). \<not> (\<exists>d'. (c', d') \<in> set xs \<and> now > expiresAt d')) (Map_delete c acc)
        = filter (\<lambda>(c', d). \<not> (\<exists>d'. (c', d') \<in> set (p # xs) \<and> now > expiresAt d')) acc"
      unfolding AList.delete_eq filter_filter p using True
      by (intro filter_cong refl) auto
    then show ?thesis using True Cons.IH by (simp add: p)
  next
    case False
    have "filter (\<lambda>(c', d). \<not> (\<exists>d'. (c', d') \<in> set xs \<and> now > expiresAt d')) acc
        = filter (\<lambda>(c', d). \<not> (\<exists>d'. (c', d') \<in> set (p # xs) \<and> now > expiresAt d')) acc"
      unfolding p using False by (intro filter_cong refl) auto
    then show ?thesis using False Cons.IH by (simp add: p)
  qed
qed

lemma cleanExpiredCodes_filter_keys:
  "cleanExpiredCodes now s
   = filter (\<lambda>(c, d). \<not> (\<exists>d'. (c, d') \<in> set s \<and> now > expiresAt d')) s"
  unfolding cleanExpiredCodes_def by (rule sweep_fold)

lemma cleanExpiredCodes_filter:
  assumes "wf_store s"
  shows "cleanExpiredCodes now s = filter (\<lambda>(c, d). \<not> now > expiresAt d) s"
proof -
  have "\<And>c d. (c, d) \<in> set s \<Longrightarrow>
      (\<exists>d'. (c, d') \<in> set s \<and> now > expiresAt d') = (now > expiresAt d)"
    using assms unfolding wf_store_def by (auto dest: eq_key_imp_eq_value)
  then show ?thesis
    unfolding cleanExpiredCodes_filter_keys by (intro filter_cong refl) auto
qed

lemma wf_store_cleanExpiredCodes: "wf_store s \<Longrightarrow> wf_store (cleanExpiredCodes now s)"
  unfolding cleanExpiredCodes_filter_keys wf_store_def by (rule distinct_map_filter)

lemma set_cleanExpiredCodes: "set (cleanExpiredCodes now s) \<subseteq> set s"
  unfolding cleanExpiredCodes_filter_keys by simp

lemma Map_get_filter_value:
  "distinct (map fst s) \<Longrightarrow>
   map_of (filter (\<lambda>(c, d). P d) s) k
   = (case map_of s k of None \<Rightarrow> None | Some d \<Rightarrow> if P d then Some d else None)"
proof (induction s)
  case Nil
  then show ?case by simp
next
  case (Cons p s)
  obtain c d where p: "p = (c, d)" by (cases p)
  from Cons.prems have notin: "c \<notin> fst ` set s" and dist: "distinct (map fst s)"
    by (simp_all add: p)
  have none: "map_of s c = None" using notin by (simp add: map_of_eq_None_iff)
  show ?case using Cons.IH [OF dist] none by (auto simp: p split: option.splits)
qed

lemma Map_get_cleanExpiredCodes:
  assumes "wf_store s"
  shows "Map_get (cleanExpiredCodes now s) k
       = (case Map_get s k of None \<Rightarrow> None
          | Some d \<Rightarrow> if now > expiresAt d then None else Some d)"
proof -
  have "distinct (map fst s)" using assms by (simp add: wf_store_def)
  then have "map_of (filter (\<lambda>(c, d). \<not> now > expiresAt d) s) k
       = (case map_of s k of None \<Rightarrow> None
          | Some d \<Rightarrow> if \<not> now > expiresAt d then Some d else None)"
    by (rule Map_get_filter_value)
  then show ?thesis
    unfolding cleanExpiredCodes_filter [OF assms] by (simp split: option.splits)
qed

lemma Map_get_cleanExpiredCodes_None:
  "Map_get s k = None \<Longrightarrow> Map_get (cleanExpiredCodes now s) k = None"
  using set_cleanExpiredCodes [of now s] by (auto simp: map_of_eq_None_iff)

lemma wf_store_delete: "wf_store s \<Longrightarrow> wf_store (Map_delete k s)"
  unfolding wf_store_def by (rule distinct_delete)

lemma wf_store_set: "wf_store s \<Longrightarrow> wf_store (Map_set k v s)"
  unfolding wf_store_def by (rule distinct_update)

lemma Map_get_delete: "Map_get (Map_delete k s) k' = (if k' = k then None else Map_get s k')"
  by (auto simp: delete_conv)

lemma Map_get_set: "Map_get (Map_set k v s) k' = (if k' = k then Some v else Map_get s k')"
  by (simp add: update_conv')

subsection \<open>The verify handlers, case by case\<close>

lemma requested_code_SomeD:
  assumes "requested_code req = Some c"
  obtains code str where "get_prop (req_body req) ''code'' = Inr code" "truthy code"
    "js_toString code = Inr str" "c = trim str"
  using assms unfolding requested_code_def
  by (auto split: sum.splits if_splits)

lemma verify_handler_cases:
  assumes "req_method req = ''POST''" and "requested_code req = Some c"
  shows "verify_handler w req s =
     (if \<not> test_six_digits c then (fail_response 400 ''Invalid code format'', s)
      else case Map_get s c of
        None \<Rightarrow> (fail_response 404 ''Invalid or expired code'', s)
      | Some d \<Rightarrow>
          (if clock w 0 > expiresAt d then
             (fail_response 410 ''Code has expired. Please request a new one.'', Map_delete c s)
           else
             (case js_toString (userId d) of
                Inl e \<Rightarrow> (fail_response 500 ''Server error'', Map_delete c s)
              | Inr uid \<Rightarrow> (verify_success w d uid, Map_delete c s))))"
proof -
  from assms(2) obtain code str where
    "get_prop (req_body req) ''code'' = Inr code" "truthy code"
    "js_toString code = Inr str" "c = trim str"
    by (rule requested_code_SomeD)
  then show ?thesis
    using assms(1)
    by (simp add: verify_handler_def verify_try_def Let_def
        split: option.splits sum.splits)
qed

lemma verify_handler_no_code:
  assumes "requested_code req = None"
  shows "snd (verify_handler w req s) = s \<and> \<not> is_success (fst (verify_handler w req s))
       \<and> status_of (fst (verify_handler w req s)) \<in> {200, 400, 405, 500}"
  using assms
  by (auto simp: verify_handler_def verify_try_def requested_code_def is_success_def
      fail_response_def status_of_def split: sum.splits if_splits)

lemma verify_handler_not_POST:
  assumes "req_method req \<noteq> ''POST''"
  shows "snd (verify_handler w req s) = s \<and> \<not> is_success (fst (verify_handler w req s))"
  using assms
  by (auto simp: verify_handler_def is_success_def fail_response_def)

lemma handleVerify_cases:
  assumes "req_method req \<noteq> ''OPTIONS''" and "requested_code req = Some c"
  shows "handleVerify w req s =
     (if \<not> test_six_digits c then (fail_response 400 ''Invalid code format'', s)
      else case Map_get (cleanExpiredCodes (clock w 0) s) c of
        None \<Rightarrow> (fail_response 404 ''Invalid or expired code'',
                  Map_delete c (cleanExpiredCodes (clock w 0) s))
      | Some d \<Rightarrow>
          (if clock w 1 > expiresAt d then
             (fail_response 404 ''Invalid or expired code'',
              Map_delete c (cleanExpiredCodes (clock w 0) s))
           else if addUser_rejects w then
             (fail_response 500 ''Server error'', cleanExpiredCodes (clock w 0) s)
           else
             (case js_toString (chatId d) of
                Inl e \<Rightarrow> (fail_response 500 ''Server error'',
                          Map_delete c (cleanExpiredCodes (clock w 0) s))
              | Inr logged \<Rightarrow>
                  (index_success d, Map_delete c (cleanExpiredCodes (clock w 0) s)))))"
proof -
  from assms(2) obtain code str where
    "get_prop (req_body req) ''code'' = Inr code" "truthy code"
    "js_toString code = Inr str" "c = trim str"
    by (rule requested_code_SomeD)
  then show ?thesis
    using assms(1)
    by (simp add: handleVerify_def handleVerify_try_def addUser_def Let_def
        split: option.splits sum.splits)
qed

lemma handleVerify_no_code:
  assumes "requested_code req = None"
  shows "snd (handleVerify w req s) = s \<and> \<not> is_success (fst (handleVerify w req s))"
  using assms
  by (auto simp: handleVerify_def handleVerify_try_def requested_code_def is_success_def
      fail_response_def split: sum.splits if_splits)

lemma handleVerify_OPTIONS:
  assumes "req_method req = ''OPTIONS''"
  shows "snd (handleVerify w req s) = s \<and> \<not> is_success (fst (handleVerify w req s))"
  using assms
  by (auto simp: handleVerify_def is_success_def)

subsection \<open>Responses\<close>

lemma status_of_simps:
  "status_of (fail_response n msg) = n"
  "status_of (verify_success w d uid) = 200"
  "status_of (index_success d) = 200"
  "status_of ok_response = 200"
  by (simp_all add: status_of_def fail_response_def verify_success_def index_success_def
      ok_response_def)

lemma is_success_simps:
  "\<not> is_success (fail_response n msg)"
  "is_success (verify_success w d uid)"
  "is_success (index_success d)"
  by (simp_all add: is_success_def fail_response_def verify_success_def index_success_def)

subsection \<open>The example, evaluated\<close>

lemmas string_eval = trim_def is_space_def test_six_digits_def is_digit_def
  num_toString_def nat_toString_small nat_toString_big digit_char_def

lemma ex_requested_code [simp]:
  "requested_code (ex_verify ''482913'') = Some ''482913''"
  "requested_code (ex_verify ''999999'') = Some ''999999''"
  by (simp_all add: requested_code_def ex_verify_def string_eval)

lemma ex_six_digits [simp]: "test_six_digits ''482913''" "test_six_digits ''999999''"
  by (simp_all add: string_eval)

lemma ex_req_method [simp]: "req_method (ex_verify c) = ''POST''"
  by (simp add: ex_verify_def)

lemma ex_clock [simp]: "clock (ex_world t) k = t"
  by (simp add: ex_world_def)

lemma ex_wf_store [simp]: "wf_store ex_store"
  by (simp add: wf_store_def ex_store_def)

lemma ex_Map_get [simp]:
  "Map_get ex_store ''482913'' = Some ex_data"
  "Map_get ex_store ''120077'' = Some ex_other"
  "Map_get ex_store ''999999'' = None"
  by (simp_all add: ex_store_def)

lemma ex_expiresAt [simp]: "expiresAt ex_data = 300000" "expiresAt ex_other = 302000"
  by (simp_all add: ex_data_def ex_other_def)

lemma ex_userId [simp]: "js_toString (userId ex_data) = Inr ''42''"
  "js_toString (chatId ex_data) = Inr ''42''"
  by (simp_all add: ex_data_def string_eval)

lemma ex_sweep:
  "cleanExpiredCodes 10000 ex_store = ex_store"
  "cleanExpiredCodes 300000 ex_store = ex_store"
  "cleanExpiredCodes 301000 ex_store = [(''120077'', ex_other)]"
  "cleanExpiredCodes 400000 ex_store = []"
  by (simp_all add: cleanExpiredCodes_def ex_store_def)

lemma ex_verify_handler:
  "verify_handler (ex_world 10000) (ex_verify ''482913'') ex_store
     = (verify_success (ex_world 10000) ex_data ''42'', [(''120077'', ex_other)])"
  "verify_handler (ex_world 301000) (ex_verify ''482913'') ex_store
     = (fail_response 410 ''Code has expired. Please request a new one.'',
        [(''120077'', ex_other)])"
  "verify_handler (ex_world 400000) (ex_verify ''999999'') ex_store
     = (fail_response 404 ''Invalid or expired code'', ex_store)"
  by (simp_all add: verify_handler_cases) (simp_all add: ex_store_def)

lemma ex_handleVerify:
  "handleVerify (ex_world 10000) (ex_verify ''482913'') ex_store
     = (index_success ex_data, [(''120077'', ex_other)])"
  "handleVerify (ex_world 301000) (ex_verify ''482913'') ex_store
     = (fail_response 404 ''Invalid or expired code'', [(''120077'', ex_other)])"
  "handleVerify (ex_world 10000) (ex_verify ''999999'') ex_store
     = (fail_response 404 ''Invalid or expired code'', ex_store)"
  by (simp_all add: handleVerify_cases ex_sweep ex_world_def) (simp_all add: ex_store_def)

subsection \<open>The loop that draws a code\<close>

lemma generate_unique_fresh: "generate_unique rs s = Some code \<Longrightarrow> \<not> Map_has s code"
  by (induction rs) (auto simp: Let_def split: if_splits)

lemma generate_unique_first:
  "generate_unique rs s = Some code \<Longrightarrow>
   \<exists>i<length rs. code = generateCode (rs ! i) \<and> (\<forall>j<i. Map_has s (generateCode (rs ! j)))"
proof (induction rs)
  case Nil
  then show ?case by simp
next
  case (Cons r rs)
  show ?case
  proof (cases "Map_has s (generateCode r)")
    case False
    with Cons.prems have "code = generateCode r" by (simp add: Let_def)
    then have "code = generateCode ((r # rs) ! 0)
        \<and> (\<forall>j<0. Map_has s (generateCode ((r # rs) ! j)))" by simp
    then show ?thesis by (intro exI [of _ 0]) simp
  next
    case True
    with Cons.prems have "generate_unique rs s = Some code" by (simp add: Let_def)
    from Cons.IH [OF this] obtain i where i: "i < length rs" "code = generateCode (rs ! i)"
      "\<forall>j<i. Map_has s (generateCode (rs ! j))" by blast
    have "\<forall>j<Suc i. Map_has s (generateCode ((r # rs) ! j))"
    proof (intro allI impI)
      fix j assume "j < Suc i"
      then show "Map_has s (generateCode ((r # rs) ! j))"
        using True i(3) by (cases j) auto
    qed
    with i(1,2) show ?thesis by (intro exI [of _ "Suc i"]) simp
  qed
qed

lemma generate_unique_returns:
  "\<exists>r\<in>set rs. \<not> Map_has s (generateCode r) \<Longrightarrow> \<exists>code. generate_unique rs s = Some code"
  by (induction rs) (auto simp: Let_def)

lemma generate_unique_all_taken:
  "\<forall>r\<in>set rs. Map_has s (generateCode r) \<Longrightarrow> generate_unique rs s = None"
  by (induction rs) (auto simp: Let_def)

subsection \<open>The webhook handlers, case by case\<close>

lemma webhook_try_store:
  assumes "webhook_try w body s = Some (res, s')"
  shows "s' = s \<or> s' = cleanExpiredCodes (clock w 0) s
       \<or> (\<exists>code d. generate_unique (random w) (cleanExpiredCodes (clock w 0) s) = Some code
            \<and> createdAt d = Some (clock w 1) \<and> expiresAt d = clock w 2 + CODE_EXPIRY_MS
            \<and> s' = Map_set code d (cleanExpiredCodes (clock w 0) s))"
proof -
  have "s' = s \<or> s' = cleanExpiredCodes (clock w 0) s
       \<or> (\<exists>code a b c d.
            generate_unique (random w) (cleanExpiredCodes (clock w 0) s) = Some code
            \<and> s' = Map_set code
                  \<lparr> chatId = a, userId = b, username = c, firstName = d,
                    createdAt = Some (clock w 1),
                    expiresAt = clock w 2 + CODE_EXPIRY_MS \<rparr>
                  (cleanExpiredCodes (clock w 0) s))"
    using assms unfolding webhook_try_def
    by (auto simp: Let_def split: sum.splits if_splits option.splits prod.splits)
  then show ?thesis
  proof (elim disjE exE conjE)
    fix code a b c d
    let ?d = "\<lparr> chatId = a, userId = b, username = c, firstName = d,
                createdAt = Some (clock w 1), expiresAt = clock w 2 + CODE_EXPIRY_MS \<rparr>"
    assume "generate_unique (random w) (cleanExpiredCodes (clock w 0) s) = Some code"
      and "s' = Map_set code ?d (cleanExpiredCodes (clock w 0) s)"
    moreover have "createdAt ?d = Some (clock w 1)"
      "expiresAt ?d = clock w 2 + CODE_EXPIRY_MS" by simp_all
    ultimately show ?thesis by blast
  qed simp_all
qed

lemma webhook_handler_store:
  assumes "webhook_handler w req s = Some (resp, s')"
  shows "s' = s \<or> s' = cleanExpiredCodes (clock w 0) s
       \<or> (\<exists>code d. generate_unique (random w) (cleanExpiredCodes (clock w 0) s) = Some code
            \<and> createdAt d = Some (clock w 1) \<and> expiresAt d = clock w 2 + CODE_EXPIRY_MS
            \<and> s' = Map_set code d (cleanExpiredCodes (clock w 0) s))"
proof (cases "req_method req = ''POST''")
  case False
  with assms show ?thesis by (simp add: webhook_handler_def)
next
  case True
  with assms obtain res where "webhook_try w (req_body req) s = Some (res, s')"
    by (auto simp: webhook_handler_def split: option.splits sum.splits prod.splits)
  then show ?thesis by (rule webhook_try_store)
qed

lemma handleWebhook_try_store:
  assumes "handleWebhook_try w body s = Some (res, s')"
  shows "s' = s \<or> s' = cleanExpiredCodes (clock w 0) s
       \<or> (\<exists>code d. generate_unique (random w) (cleanExpiredCodes (clock w 0) s) = Some code
            \<and> createdAt d = None \<and> expiresAt d = clock w 1 + CODE_EXPIRY_MS
            \<and> s' = Map_set code d (cleanExpiredCodes (clock w 0) s))"
proof -
  have "s' = s \<or> s' = cleanExpiredCodes (clock w 0) s
       \<or> (\<exists>code a b c d.
            generate_unique (random w) (cleanExpiredCodes (clock w 0) s) = Some code
            \<and> s' = Map_set code
                  \<lparr> chatId = a, userId = b, username = c, firstName = d,
                    createdAt = None, expiresAt = clock w 1 + CODE_EXPIRY_MS \<rparr>
                  (cleanExpiredCodes (clock w 0) s))"
    using assms unfolding handleWebhook_try_def
    by (auto simp: Let_def split: sum.splits if_splits option.splits prod.splits)
  then show ?thesis
  proof (elim disjE exE conjE)
    fix code a b c d
    let ?d = "\<lparr> chatId = a, userId = b, username = c, firstName = d,
                createdAt = None, expiresAt = clock w 1 + CODE_EXPIRY_MS \<rparr>"
    assume "generate_unique (random w) (cleanExpiredCodes (clock w 0) s) = Some code"
      and "s' = Map_set code ?d (cleanExpiredCodes (clock w 0) s)"
    moreover have "createdAt ?d = None" "expiresAt ?d = clock w 1 + CODE_EXPIRY_MS"
      by simp_all
    ultimately show ?thesis by blast
  qed simp_all
qed

lemma handleWebhook_store:
  assumes "handleWebhook w req s = Some (resp, s')"
  shows "s' = s \<or> s' = cleanExpiredCodes (clock w 0) s
       \<or> (\<exists>code d. generate_unique (random w) (cleanExpiredCodes (clock w 0) s) = Some code
            \<and> createdAt d = None \<and> expiresAt d = clock w 1 + CODE_EXPIRY_MS
            \<and> s' = Map_set code d (cleanExpiredCodes (clock w 0) s))"
proof -
  from assms obtain res where "handleWebhook_try w (req_body req) s = Some (res, s')"
    by (auto simp: handleWebhook_def split: option.splits sum.splits prod.splits)
  then show ?thesis by (rule handleWebhook_try_store)
qed

lemma verify_handler_store:
  "snd (verify_handler w req s) = s \<or> (\<exists>c. snd (verify_handler w req s) = Map_delete c s)"
  using verify_handler_no_code [of req w s] verify_handler_not_POST [of req w s]
    verify_handler_cases [of req _ w s]
  by (cases "req_method req = ''POST''"; cases "requested_code req")
    (auto split: option.splits sum.splits if_splits)

lemma handleVerify_store:
  "snd (handleVerify w req s) = s
   \<or> snd (handleVerify w req s) = cleanExpiredCodes (clock w 0) s
   \<or> (\<exists>c. snd (handleVerify w req s) = Map_delete c (cleanExpiredCodes (clock w 0) s))"
  using handleVerify_no_code [of req w s] handleVerify_OPTIONS [of req w s]
    handleVerify_cases [of req _ w s]
  by (cases "req_method req = ''OPTIONS''"; cases "requested_code req")
    (auto split: option.splits sum.splits if_splits)

subsection \<open>Invariants of the registry\<close>

lemma webhook_handler_wf:
  "wf_store s \<Longrightarrow> webhook_handler w req s = Some (resp, s') \<Longrightarrow> wf_store s'"
  by (drule webhook_handler_store) (auto simp: wf_store_cleanExpiredCodes wf_store_set)

lemma handleWebhook_wf:
  "wf_store s \<Longrightarrow> handleWebhook w req s = Some (resp, s') \<Longrightarrow> wf_store s'"
  by (drule handleWebhook_store) (auto simp: wf_store_cleanExpiredCodes wf_store_set)

lemma verify_handler_wf: "wf_store s \<Longrightarrow> wf_store (snd (verify_handler w req s))"
  using verify_handler_store [of w req s] by (auto simp: wf_store_delete)

lemma handleVerify_wf: "wf_store s \<Longrightarrow> wf_store (snd (handleVerify w req s))"
  using handleVerify_store [of w req s]
  by (auto simp: wf_store_delete wf_store_cleanExpiredCodes)

lemma reachable_files_wf: "reachable step_files s \<Longrightarrow> wf_store s"
proof (induction rule: reachable.induct)
  case reachable_init
  show ?case by (simp add: wf_store_def)
next
  case (reachable_step s c r s')
  show ?case
  proof (cases c)
    case (Webhook w req)
    with reachable_step show ?thesis by (auto dest: webhook_handler_wf)
  next
    case (Verify w req)
    with reachable_step have "s' = snd (verify_handler w req s)" by simp
    with reachable_step show ?thesis by (simp add: verify_handler_wf)
  qed
qed

lemma reachable_index_wf: "reachable step_index s \<Longrightarrow> wf_store s"
proof (induction rule: reachable.induct)
  case reachable_init
  show ?case by (simp add: wf_store_def)
next
  case (reachable_step s c r s')
  show ?case
  proof (cases c)
    case (Webhook w req)
    with reachable_step show ?thesis by (auto dest: handleWebhook_wf)
  next
    case (Verify w req)
    with reachable_step have "s' = snd (handleVerify w req s)" by simp
    with reachable_step show ?thesis by (simp add: handleVerify_wf)
  qed
qed

lemma Map_get_swept_SomeD:
  "wf_store s \<Longrightarrow> Map_get (cleanExpiredCodes now s) k = Some d \<Longrightarrow> Map_get s k = Some d"
  by (auto simp: Map_get_cleanExpiredCodes split: option.splits if_splits)

lemma Map_get_swept_kept:
  "wf_store s \<Longrightarrow> Map_get s k = Some d \<Longrightarrow> \<not> expired now d \<Longrightarrow>
   Map_get (cleanExpiredCodes now s) k = Some d"
  by (simp add: Map_get_cleanExpiredCodes expired_def)

lemma issue_keeps_records:
  assumes "generate_unique rs s1 = Some code" and "Map_get s1 k = Some d"
  shows "Map_get (Map_set code v s1) k = Some d"
proof -
  have "\<not> Map_has s1 code" using assms(1) by (rule generate_unique_fresh)
  moreover have "Map_has s1 k" using assms(2) by (auto dest: map_of_SomeD intro: rev_image_eqI)
  ultimately have "k \<noteq> code" by blast
  then show ?thesis using assms(2) by (simp add: Map_get_set)
qed

lemma webhook_handler_keeps:
  assumes "wf_store s" and "webhook_handler w req s = Some (resp, s')"
    and "Map_get s k = Some d" and "\<not> expired (clock w 0) d"
  shows "Map_get s' k = Some d"
proof -
  have kept: "Map_get (cleanExpiredCodes (clock w 0) s) k = Some d"
    using assms(1,3,4) by (rule Map_get_swept_kept)
  from webhook_handler_store [OF assms(2)] show ?thesis
    using kept assms(3) by (auto intro: issue_keeps_records)
qed

lemma handleWebhook_keeps:
  assumes "wf_store s" and "handleWebhook w req s = Some (resp, s')"
    and "Map_get s k = Some d" and "\<not> expired (clock w 0) d"
  shows "Map_get s' k = Some d"
proof -
  have kept: "Map_get (cleanExpiredCodes (clock w 0) s) k = Some d"
    using assms(1,3,4) by (rule Map_get_swept_kept)
  from handleWebhook_store [OF assms(2)] show ?thesis
    using kept assms(3) by (auto intro: issue_keeps_records)
qed

lemma webhook_handler_new_record:
  assumes "wf_store s" and "webhook_handler w req s = Some (resp, s')"
    and "Map_get s' k = Some d" and "Map_get s k \<noteq> Some d"
  shows "generate_unique (random w) (cleanExpiredCodes (clock w 0) s) = Some k
       \<and> createdAt d = Some (clock w 1) \<and> expiresAt d = clock w 2 + CODE_EXPIRY_MS"
  using webhook_handler_store [OF assms(2)] assms(1,3,4)
  by (auto simp: Map_get_set dest: Map_get_swept_SomeD split: if_splits)

lemma handleWebhook_new_record:
  assumes "wf_store s" and "handleWebhook w req s = Some (resp, s')"
    and "Map_get s' k = Some d" and "Map_get s k \<noteq> Some d"
  shows "generate_unique (random w) (cleanExpiredCodes (clock w 0) s) = Some k
       \<and> createdAt d = None \<and> expiresAt d = clock w 1 + CODE_EXPIRY_MS"
  using handleWebhook_store [OF assms(2)] assms(1,3,4)
  by (auto simp: Map_get_set dest: Map_get_swept_SomeD split: if_splits)

lemma ex_generateCode:
  "generateCode (446127 / 1048576) = ''482913''"
  "generateCode (1 / 2) = ''550000''"
  "generateCode (18164518497061 / 2 ^ 53) = ''101815''"
  by (simp_all only: generateCode_def ex_round_product ex_round_sum)
     (simp_all add: string_eval)

text \<open>
  The rounding matters: in exact arithmetic the third value would give 101814, and a
  real number below 1 that is not a double can give a code of seven digits.
\<close>

lemma ex_exact_arithmetic:
  "num_toString \<lfloor>100000 + 18164518497061 / 2 ^ 53 * 900000 :: real\<rfloor> = ''101814''"
  by (simp add: string_eval)

lemma ex_not_a_double:
  "generateCode (1 - 1 / 2 ^ 60) = ''1000000''"
proof -
  have "round_double ((1 - 1 / 2 ^ 60) * 900000)
      = of_int (round_even ((1 - 1 / 2 ^ 60) * 900000 / power_int 2 (19 - 52)))
        * power_int 2 (19 - 52)"
    by (rule round_double_binade) simp_all
  also have "round_even ((1 - 1 / 2 ^ 60) * 900000 / power_int 2 (19 - 52)) = 900000 * 2 ^ 33"
    by (simp add: round_even_def Let_def power_int_minus_divide)
  finally have p: "round_double ((1 - 1 / 2 ^ 60) * 900000) = 900000"
    by (simp add: power_int_minus_divide)
  have "round_double 1000000 = 1000000"
    by (rule round_double_exact [where k = 19 and m = "1000000 * 2 ^ 33"])
       (simp_all add: power_int_minus_divide)
  then have s: "round_double (100000 + 900000) = 1000000" by simp
  show ?thesis
    by (simp only: generateCode_def p s) (simp add: string_eval)
qed

lemma ex_read_update:
  "read_update (JObj [(''text'', JStr t), (''chat'', JObj [(''id'', JNum 42)]),
      (''from'', JObj [(''id'', JNum 42), (''first_name'', JStr ''Ann'')])])
   = Inr (JNum 42, JNum 42, JStr [], JStr ''Ann'', trim t)"
  by (simp add: read_update_def try_bind_def js_or_def)

lemma ex_read_update_index:
  "read_update_index (JObj [(''text'', JStr t), (''chat'', JObj [(''id'', JNum 42)]),
      (''from'', JObj [(''id'', JNum 42), (''first_name'', JStr ''Ann'')])])
   = Inr (JNum 42, JObj [(''id'', JNum 42), (''first_name'', JStr ''Ann'')], JStr ''Ann'', trim t)"
  by (simp add: read_update_index_def try_bind_def js_or_def)

lemma ex_webhook_connect:
  "webhook_handler (ex_world 0) (ex_update ''/connect'') [] = Some (ok_response, [(''482913'', ex_data)])"
  by (simp add: webhook_handler_def webhook_try_def ex_update_def ex_read_update
      cleanExpiredCodes_def ex_world_def ex_generateCode ex_data_def CODE_EXPIRY_MS_def
      finish_def try_bind_def sendTelegramMessage_def string_eval)

lemma ex_webhook_connect_tick:
  "webhook_handler ex_tick (ex_update ''/connect'') []
   = Some (ok_response,
       [(''482913'', \<lparr> chatId = JNum 42, userId = JNum 42, username = JStr [],
           firstName = JStr ''Ann'', createdAt = Some 1001, expiresAt = 301002 \<rparr>)])"
  by (simp add: webhook_handler_def webhook_try_def ex_update_def ex_read_update
      cleanExpiredCodes_def ex_tick_def ex_generateCode CODE_EXPIRY_MS_def
      finish_def try_bind_def sendTelegramMessage_def string_eval)

lemma ex_handleWebhook_connect:
  "handleWebhook (ex_world 0) (ex_update ''/connect'') []
   = Some (ok_response,
       [(''482913'', \<lparr> chatId = JNum 42, userId = JNum 42, username = JUndefined,
           firstName = JStr ''Ann'', createdAt = None, expiresAt = 300000 \<rparr>)])"
  by (simp add: handleWebhook_def handleWebhook_try_def ex_update_def ex_read_update_index
      read_sender_def cleanExpiredCodes_def ex_world_def ex_generateCode CODE_EXPIRY_MS_def
      finish_def try_bind_def sendTelegramMessage_def string_eval)

lemma ex_generate_unique:
  "generate_unique [446127 / 1048576, 1 / 2] ex_store = Some ''550000''"
  by (simp add: ex_generateCode ex_store_def)

subsection \<open>Requests that are not updates\<close>

lemma webhook_no_body:
  assumes "req_method req = ''POST''" and "req_body req = JUndefined \<or> req_body req = JNull"
  shows "webhook_handler w req s = Some ((500, JObj [(''error'', JStr ''Internal error'')]), s)"
  using assms by (auto simp: webhook_handler_def webhook_try_def)

lemma handleWebhook_no_body:
  assumes "req_body req = JUndefined \<or> req_body req = JNull"
  shows "handleWebhook w req s = Some ((500, JObj [(''error'', JStr ''Internal error'')]), s)"
  using assms by (auto simp: handleWebhook_def handleWebhook_try_def)

lemma webhook_no_text:
  assumes "req_method req = ''POST''" and "get_prop (req_body req) ''message'' = Inr message"
    and "\<not> truthy message \<or> (\<exists>text. get_prop message ''text'' = Inr text \<and> \<not> truthy text)"
  shows "webhook_handler w req s = Some (ok_response, s)"
  using assms by (auto simp: webhook_handler_def webhook_try_def)

lemma handleWebhook_no_text:
  assumes "get_prop (req_body req) ''message'' = Inr message"
    and "\<not> truthy message \<or> (\<exists>text. get_prop message ''text'' = Inr text \<and> \<not> truthy text)"
  shows "handleWebhook w req s = Some (ok_response, s)"
  using assms by (auto simp: handleWebhook_def handleWebhook_try_def)

lemma webhook_bad_fields:
  assumes "req_method req = ''POST''" and "get_prop (req_body req) ''message'' = Inr message"
    and "truthy message" and "get_prop message ''text'' = Inr text" and "truthy text"
    and "read_update message = Inl e"
  shows "webhook_handler w req s = Some ((500, JObj [(''error'', JStr ''Internal error'')]), s)"
  using assms by (simp add: webhook_handler_def webhook_try_def)

lemma handleWebhook_bad_fields:
  assumes "get_prop (req_body req) ''message'' = Inr message"
    and "truthy message" and "get_prop message ''text'' = Inr text" and "truthy text"
    and "read_update_index message = Inl e"
  shows "handleWebhook w req s = Some ((500, JObj [(''error'', JStr ''Internal error'')]), s)"
  using assms by (simp add: handleWebhook_def handleWebhook_try_def)

subsection \<open>Codes that are not stored\<close>

lemma verify_handler_absent:
  "Map_get s c = None \<Longrightarrow> Map_get (snd (verify_handler w req s)) c = None"
  using verify_handler_store [of w req s] by (auto simp: Map_get_delete)

lemma handleVerify_absent:
  "Map_get s c = None \<Longrightarrow> Map_get (snd (handleVerify w req s)) c = None"
  using handleVerify_store [of w req s]
  by (auto simp: Map_get_delete Map_get_cleanExpiredCodes_None)

lemma verify_handler_not_found:
  assumes "Map_get s c = None" and "requested_code req = Some c" and "test_six_digits c"
    and "req_method req = ''POST''"
  shows "fst (verify_handler w req s) = fail_response 404 ''Invalid or expired code''"
  using assms by (simp add: verify_handler_cases)

lemma handleVerify_not_found:
  assumes "Map_get s c = None" and "requested_code req = Some c" and "test_six_digits c"
    and "req_method req = ''POST''"
  shows "fst (handleVerify w req s) = fail_response 404 ''Invalid or expired code''"
proof -
  have "Map_get (cleanExpiredCodes (clock w 0) s) c = None"
    using assms(1) by (rule Map_get_cleanExpiredCodes_None)
  moreover have "req_method req \<noteq> ''OPTIONS''" using assms(4) by simp
  ultimately show ?thesis using assms(2,3) by (simp add: handleVerify_cases)
qed

lemma verify_handler_success_consumes:
  assumes "requested_code req = Some c" and "is_success (fst (verify_handler w req s))"
  shows "test_six_digits c \<and> Map_get (snd (verify_handler w req s)) c = None"
proof -
  have post: "req_method req = ''POST''"
    using assms(2) verify_handler_not_POST [of req w s] by blast
  show ?thesis
    using assms(2) unfolding verify_handler_cases [OF post assms(1)]
    by (auto simp: is_success_simps Map_get_delete split: if_splits option.splits sum.splits)
qed

lemma handleVerify_success_consumes:
  assumes "requested_code req = Some c" and "is_success (fst (handleVerify w req s))"
  shows "test_six_digits c \<and> Map_get (snd (handleVerify w req s)) c = None"
proof -
  have opt: "req_method req \<noteq> ''OPTIONS''"
    using assms(2) handleVerify_OPTIONS [of req w s] by blast
  show ?thesis
    using assms(2) unfolding handleVerify_cases [OF opt assms(1)]
    by (auto simp: is_success_simps Map_get_delete split: if_splits option.splits sum.splits)
qed

lemma run_not_found:
  assumes verify: "\<And>w req s. step (Verify w req) s = Some (h w req s)"
    and not_found: "\<And>w req s. Map_get s c = None \<Longrightarrow> requested_code req = Some c \<Longrightarrow>
        req_method req = ''POST'' \<Longrightarrow> fst (h w req s) = fail_response 404 ''Invalid or expired code''"
  shows "run step cs s = Some out \<Longrightarrow> Map_get s c = None \<Longrightarrow> i < length cs \<Longrightarrow>
    cs ! i = Verify w req \<Longrightarrow> requested_code req = Some c \<Longrightarrow> req_method req = ''POST'' \<Longrightarrow>
    \<forall>j<i. Map_get (snd (out ! j)) c = None \<Longrightarrow>
    fst (out ! i) = fail_response 404 ''Invalid or expired code''"
proof (induction cs arbitrary: s out i)
  case Nil
  then show ?case by simp
next
  case (Cons c0 cs)
  from Cons.prems(1) obtain r s1 out' where
    step: "step c0 s = Some (r, s1)" and rest: "run step cs s1 = Some out'"
    and out: "out = (r, s1) # out'"
    by (auto split: option.splits prod.splits)
  show ?case
  proof (cases i)
    case 0
    with Cons.prems(4) have "c0 = Verify w req" by simp
    with step verify have "(r, s1) = h w req s" by simp
    then have "r = fst (h w req s)" by (metis fst_conv)
    then show ?thesis
      using 0 out not_found [OF Cons.prems(2) Cons.prems(5) Cons.prems(6)] by simp
  next
    case (Suc i')
    have absent: "Map_get s1 c = None"
      using Cons.prems(7) Suc out by (auto dest: spec [of _ 0])
    have later: "\<forall>j<i'. Map_get (snd (out' ! j)) c = None"
    proof (intro allI impI)
      fix j assume "j < i'"
      then have "Suc j < i" using Suc by simp
      with Cons.prems(7) have "Map_get (snd (out ! Suc j)) c = None" by blast
      then show "Map_get (snd (out' ! j)) c = None" using out by simp
    qed
    have "fst (out' ! i') = fail_response 404 ''Invalid or expired code''"
      using Cons.IH [OF rest absent _ _ Cons.prems(5) Cons.prems(6) later]
        Cons.prems(3) Cons.prems(4) Suc by simp
    then show ?thesis using Suc out by simp
  qed
qed

lemma verify_handler_no_update:
  "Map_get (snd (verify_handler w req s)) k = Some d \<Longrightarrow> Map_get s k = Some d"
  using verify_handler_store [of w req s] by (auto simp: Map_get_delete split: if_splits)

lemma ex_webhook_start:
  "webhook_handler (ex_world t) (ex_update ''/start'') s
   = Some (ok_response, cleanExpiredCodes t s)"
  by (simp add: webhook_handler_def webhook_try_def ex_update_def ex_read_update
      ex_world_def finish_def try_bind_def sendTelegramMessage_def string_eval)

lemma ex_handleWebhook_start:
  "handleWebhook (ex_world t) (ex_update ''/start'') s
   = Some (ok_response, cleanExpiredCodes t s)"
  by (simp add: handleWebhook_def handleWebhook_try_def ex_update_def ex_read_update_index
      ex_world_def finish_def try_bind_def sendTelegramMessage_def string_eval)

lemma js_toString_throws_truthy: "js_toString v = Inl e \<Longrightarrow> truthy v"
  by (cases v) simp_all

lemma ex_handleVerify_other:
  "handleVerify (ex_world 301000) (ex_verify ''120077'') ex_store = (index_success ex_other, [])"
proof -
  have r: "requested_code (ex_verify ''120077'') = Some ''120077''"
    by (simp add: requested_code_def ex_verify_def string_eval)
  have t: "test_six_digits ''120077''" by (simp add: string_eval)
  have s: "cleanExpiredCodes 301000 ex_store = [(''120077'', ex_other)]"
    by (simp add: cleanExpiredCodes_def ex_store_def)
  have u: "js_toString (chatId ex_other) = Inr ''7''" by (simp add: ex_other_def string_eval)
  show ?thesis
    by (simp add: handleVerify_cases [OF _ r] t s u) (simp add: ex_world_def addUser_def)
qed

section \<open>The format of a generated code\<close>

text \<open>
  C6. Every code produced by \<^verbatim>\<open>generateCode\<close> is the decimal string of an integer from
  100000 to 999999 inclusive: a string of exactly six digits that does not begin with a
  zero. \<open>r\<close> is the value of \<^verbatim>\<open>Math.random()\<close>: a double, at least 0 and less than 1.
  The product and the sum are rounded to doubles as the program computes them: \<open>r\<close> is
  at most \<open>1 - 1 / 2 ^ 53\<close>, the rounded product at most \<open>900000 - 1 / 2 ^ 33\<close>, and
  the rounded sum at most \<open>1000000 - 1 / 2 ^ 33\<close>, so that its floor is below 1000000.
\<close>

theorem generateCode_six_digits:
  assumes "is_double r" and "0 \<le> r" and "r < 1"
  shows "(\<exists>n. 100000 \<le> n \<and> n \<le> 999999 \<and> generateCode r = num_toString n)
       \<and> test_six_digits (generateCode r)
       \<and> hd (generateCode r) \<noteq> CHR ''0''"
proof -
  let ?n = "\<lfloor>round_double (100000 + round_double (r * 900000))\<rfloor>"
  have range: "100000 \<le> ?n \<and> ?n \<le> 999999"
    using assms by (rule double_code_range)
  have digits: "test_six_digits (num_toString ?n) \<and> hd (num_toString ?n) \<noteq> CHR ''0''"
    using range by (intro six_digits_of_range) blast+
  have code: "generateCode r = num_toString ?n"
    by (simp only: generateCode_def)
  show ?thesis unfolding code using range digits by blast
qed

theorem generateCode_six_digits_witness:
  "is_double (18164518497061 / 2 ^ 53)
   \<and> (0::real) \<le> 18164518497061 / 2 ^ 53 \<and> (18164518497061 / 2 ^ 53 :: real) < 1
   \<and> generateCode (18164518497061 / 2 ^ 53) = ''101815''
   \<and> test_six_digits (generateCode (18164518497061 / 2 ^ 53))
   \<and> hd (generateCode (18164518497061 / 2 ^ 53)) \<noteq> CHR ''0''"
proof -
  have d: "is_double (18164518497061 / 2 ^ 53)" by (rule ex_is_double)
  have a: "(0::real) \<le> 18164518497061 / 2 ^ 53"
    and b: "(18164518497061 / 2 ^ 53 :: real) < 1" by simp_all
  have c: "generateCode (18164518497061 / 2 ^ 53) = ''101815''" by (rule ex_generateCode)
  have t: "test_six_digits (generateCode (18164518497061 / 2 ^ 53))
      \<and> hd (generateCode (18164518497061 / 2 ^ 53)) \<noteq> CHR ''0''"
    using generateCode_six_digits [OF d a b] by (rule conjunct2)
  show ?thesis by (intro conjI) (fact d a b c t [THEN conjunct1] t [THEN conjunct2])+
qed

section \<open>Format validation\<close>

text \<open>
  C4, as the code has it. A POST to a verify handler whose code is missing or falsy, or
  converts to a string that after trimming is not exactly six ASCII digits, is answered
  with status 400, whatever the registry holds, and the registry after the call is the
  registry before it. The message is that of the format check, or that of the
  missing-code check when the value is falsy. A request with no body, or with a code
  whose conversion to a string throws (an object with an own property \<open>toString\<close>), has
  no six-digit code either, but it is not answered 400: the statement that reads or
  converts the code throws, and the \<^verbatim>\<open>catch\<close> block answers 500, also before any lookup
  and with the registry unchanged. These are all the requests without a code to look up.
\<close>

theorem invalid_format_rejected:
  assumes "req_method req = ''POST''"
  shows "(get_prop (req_body req) ''code'' = Inr code
          \<and> (\<not> truthy code \<or> (js_toString code = Inr str \<and> \<not> test_six_digits (trim str)))
          \<longrightarrow> verify_handler w req s =
                (fail_response 400 (if truthy code then ''Invalid code format''
                                    else ''Code is required''), s)
            \<and> handleVerify w req s =
                (fail_response 400 (if truthy code then ''Invalid code format''
                                    else ''Code required''), s))
       \<and> (get_prop (req_body req) ''code'' = Inl e
          \<or> (get_prop (req_body req) ''code'' = Inr code \<and> js_toString code = Inl e)
          \<longrightarrow> verify_handler w req s = (fail_response 500 ''Server error'', s)
            \<and> handleVerify w req s = (fail_response 500 ''Server error'', s))
       \<and> ((\<forall>c. requested_code req = Some c \<longrightarrow> \<not> test_six_digits c)
          \<longrightarrow> snd (verify_handler w req s) = s \<and> snd (handleVerify w req s) = s
            \<and> status_of (fst (verify_handler w req s)) \<in> {400, 500}
            \<and> status_of (fst (handleVerify w req s)) \<in> {400, 500})"
proof -
  have a: "get_prop (req_body req) ''code'' = Inr code
          \<and> (\<not> truthy code \<or> (js_toString code = Inr str \<and> \<not> test_six_digits (trim str)))
          \<longrightarrow> verify_handler w req s =
                (fail_response 400 (if truthy code then ''Invalid code format''
                                    else ''Code is required''), s)
            \<and> handleVerify w req s =
                (fail_response 400 (if truthy code then ''Invalid code format''
                                    else ''Code required''), s)"
    using assms
    by (auto simp: verify_handler_def verify_try_def handleVerify_def handleVerify_try_def Let_def)
  have b: "get_prop (req_body req) ''code'' = Inl e
          \<or> (get_prop (req_body req) ''code'' = Inr code \<and> js_toString code = Inl e)
          \<longrightarrow> verify_handler w req s = (fail_response 500 ''Server error'', s)
            \<and> handleVerify w req s = (fail_response 500 ''Server error'', s)"
    using assms js_toString_throws_truthy [of code e]
    by (auto simp: verify_handler_def verify_try_def handleVerify_def handleVerify_try_def Let_def)
  have c: "(\<forall>c. requested_code req = Some c \<longrightarrow> \<not> test_six_digits c)
          \<longrightarrow> snd (verify_handler w req s) = s \<and> snd (handleVerify w req s) = s
            \<and> status_of (fst (verify_handler w req s)) \<in> {400, 500}
            \<and> status_of (fst (handleVerify w req s)) \<in> {400, 500}"
    using assms
    by (auto simp: verify_handler_def verify_try_def handleVerify_def handleVerify_try_def Let_def
        requested_code_def status_of_simps split: sum.splits if_splits)
  show ?thesis by (intro conjI) (fact a b c)+
qed

theorem invalid_format_rejected_witness:
  "req_method (ex_verify ''12a456'') = ''POST''
   \<and> get_prop (req_body (ex_verify ''12a456'')) ''code'' = Inr (JStr ''12a456'')
   \<and> js_toString (JStr ''12a456'') = Inr ''12a456''
   \<and> \<not> test_six_digits (trim ''12a456'')
   \<and> verify_handler (ex_world 10000) (ex_verify ''12a456'') ex_store
       = (fail_response 400 ''Invalid code format'', ex_store)
   \<and> handleVerify (ex_world 10000) (ex_verify ''12a456'') ex_store
       = (fail_response 400 ''Invalid code format'', ex_store)
   \<and> req_method (ex_post JNull) = ''POST''
   \<and> get_prop (req_body (ex_post JNull)) ''code'' = Inl TypeError
   \<and> verify_handler (ex_world 10000) (ex_post JNull) ex_store
       = (fail_response 500 ''Server error'', ex_store)
   \<and> handleVerify (ex_world 10000) (ex_post JNull) ex_store
       = (fail_response 500 ''Server error'', ex_store)
   \<and> requested_code (ex_post JNull) = None
   \<and> (snd (verify_handler (ex_world 10000) (ex_post JNull) ex_store) = ex_store
     \<and> snd (handleVerify (ex_world 10000) (ex_post JNull) ex_store) = ex_store
     \<and> status_of (fst (verify_handler (ex_world 10000) (ex_post JNull) ex_store)) \<in> {400, 500}
     \<and> status_of (fst (handleVerify (ex_world 10000) (ex_post JNull) ex_store)) \<in> {400, 500})"
proof -
  have d: "req_method (ex_verify ''12a456'') = ''POST''" by (simp add: ex_verify_def)
  have a: "get_prop (req_body (ex_verify ''12a456'')) ''code'' = Inr (JStr ''12a456'')"
    by (simp add: ex_verify_def)
  have b: "js_toString (JStr ''12a456'') = Inr ''12a456''" by simp
  have c: "\<not> test_six_digits (trim ''12a456'')"
    by (simp add: test_six_digits_def trim_def is_space_def is_digit_def)
  have t: "truthy (JStr ''12a456'')" by simp
  have h: "get_prop (req_body (ex_verify ''12a456'')) ''code'' = Inr (JStr ''12a456'')
      \<and> (\<not> truthy (JStr ''12a456'')
         \<or> (js_toString (JStr ''12a456'') = Inr ''12a456'' \<and> \<not> test_six_digits (trim ''12a456'')))"
    using a b c by simp
  have r1: "verify_handler (ex_world 10000) (ex_verify ''12a456'') ex_store
       = (fail_response 400 ''Invalid code format'', ex_store)
     \<and> handleVerify (ex_world 10000) (ex_verify ''12a456'') ex_store
       = (fail_response 400 ''Invalid code format'', ex_store)"
    using invalid_format_rejected [OF d, where code = "JStr ''12a456''" and str = "''12a456''"
        and w = "ex_world 10000" and s = ex_store, THEN conjunct1, THEN mp, OF h] t
    by simp
  have d': "req_method (ex_post JNull) = ''POST''" by (simp add: ex_post_def)
  have a': "get_prop (req_body (ex_post JNull)) ''code'' = Inl TypeError"
    by (simp add: ex_post_def)
  have h': "get_prop (req_body (ex_post JNull)) ''code'' = Inl TypeError
      \<or> (get_prop (req_body (ex_post JNull)) ''code'' = Inr JNull \<and> js_toString JNull = Inl TypeError)"
    using a' by simp
  have r2: "verify_handler (ex_world 10000) (ex_post JNull) ex_store
       = (fail_response 500 ''Server error'', ex_store)
     \<and> handleVerify (ex_world 10000) (ex_post JNull) ex_store
       = (fail_response 500 ''Server error'', ex_store)"
    using invalid_format_rejected [OF d', where code = JNull and e = TypeError
        and w = "ex_world 10000" and s = ex_store, THEN conjunct2, THEN conjunct1, THEN mp, OF h']
    by simp
  have n: "requested_code (ex_post JNull) = None"
    by (simp add: requested_code_def ex_post_def)
  have h'': "\<forall>c. requested_code (ex_post JNull) = Some c \<longrightarrow> \<not> test_six_digits c"
    using n by simp
  have r3: "snd (verify_handler (ex_world 10000) (ex_post JNull) ex_store) = ex_store
     \<and> snd (handleVerify (ex_world 10000) (ex_post JNull) ex_store) = ex_store
     \<and> status_of (fst (verify_handler (ex_world 10000) (ex_post JNull) ex_store)) \<in> {400, 500}
     \<and> status_of (fst (handleVerify (ex_world 10000) (ex_post JNull) ex_store)) \<in> {400, 500}"
    using invalid_format_rejected [OF d', where w = "ex_world 10000" and s = ex_store,
        THEN conjunct2, THEN conjunct2, THEN mp, OF h''] .
  show ?thesis
    by (intro conjI) (fact d a b c r1 [THEN conjunct1] r1 [THEN conjunct2] d' a'
        r2 [THEN conjunct1] r2 [THEN conjunct2] n r3 [THEN conjunct1]
        r3 [THEN conjunct2, THEN conjunct1] r3 [THEN conjunct2, THEN conjunct2, THEN conjunct1]
        r3 [THEN conjunct2, THEN conjunct2, THEN conjunct2])+
qed

theorem invalid_format_counterexample:
  "req_method (ex_post (JObj [(''code'', JObj [(''toString'', JNum 1)])])) = ''POST''
   \<and> requested_code (ex_post (JObj [(''code'', JObj [(''toString'', JNum 1)])])) = None
   \<and> verify_handler (ex_world 10000) (ex_post (JObj [(''code'', JObj [(''toString'', JNum 1)])]))
        ex_store = (fail_response 500 ''Server error'', ex_store)
   \<and> handleVerify (ex_world 10000) (ex_post (JObj [(''code'', JObj [(''toString'', JNum 1)])]))
        ex_store = (fail_response 500 ''Server error'', ex_store)
   \<and> requested_code (ex_post JUndefined) = None
   \<and> verify_handler (ex_world 10000) (ex_post JUndefined) ex_store
       = (fail_response 500 ''Server error'', ex_store)
   \<and> handleVerify (ex_world 10000) (ex_post JUndefined) ex_store
       = (fail_response 500 ''Server error'', ex_store)
   \<and> status_of (fail_response 500 ''Server error'') \<noteq> 400"
  by (simp add: ex_post_def requested_code_def verify_handler_def verify_try_def
      handleVerify_def handleVerify_try_def status_of_simps)

section \<open>What a verify call leaves in place\<close>

text \<open>
  C10, as the code has it. A verify call leaves every unexpired record stored under a
  code other than the requested one in place and unchanged, and it adds no record. For
  the handler of \<^verbatim>\<open>api/verify.js\<close> this holds of every record, expired or not: a
  successful call removes the entry of the requested code and nothing else, and a call
  answered with status 404 removes nothing. \<^verbatim>\<open>handleVerify\<close> of \<^verbatim>\<open>api/index.js\<close> sweeps
  before it looks the code up: a successful call removes the entry of the requested code
  and, with it, every record that is expired at the first clock reading of the call, and
  no other record; a call answered with status 404 removes no record that is unexpired
  at the clock readings of the call.
\<close>

theorem verify_frame:
  assumes "Map_get s k = Some d"
  shows "(requested_code req \<noteq> Some k \<longrightarrow> Map_get (snd (verify_handler w req s)) k = Some d)
       \<and> (is_success (fst (verify_handler w req s)) \<longrightarrow>
            (\<exists>c. requested_code req = Some c \<and> snd (verify_handler w req s) = Map_delete c s))
       \<and> (status_of (fst (verify_handler w req s)) = 404 \<longrightarrow> snd (verify_handler w req s) = s)
       \<and> (wf_store s \<and> \<not> expired (clock w 0) d \<and> requested_code req \<noteq> Some k \<longrightarrow>
            Map_get (snd (handleVerify w req s)) k = Some d)
       \<and> (is_success (fst (handleVerify w req s)) \<longrightarrow>
            (\<exists>c. requested_code req = Some c
               \<and> snd (handleVerify w req s) = Map_delete c (cleanExpiredCodes (clock w 0) s)))
       \<and> (wf_store s \<and> \<not> expired (clock w 0) d \<and> \<not> expired (clock w 1) d
            \<and> status_of (fst (handleVerify w req s)) = 404 \<longrightarrow>
            Map_get (snd (handleVerify w req s)) k = Some d)
       \<and> (wf_store s \<and> is_success (fst (handleVerify w req s)) \<longrightarrow>
            (\<exists>c. requested_code req = Some c
               \<and> Map_get (snd (handleVerify w req s)) k
                   = (if k = c \<or> expired (clock w 0) d then None else Some d)))
       \<and> (Map_get s k' = None \<longrightarrow>
            Map_get (snd (verify_handler w req s)) k' = None
            \<and> Map_get (snd (handleVerify w req s)) k' = None)"
proof (intro conjI impI)
  assume "requested_code req \<noteq> Some k"
  then show "Map_get (snd (verify_handler w req s)) k = Some d"
    using assms verify_handler_no_code [of req w s] verify_handler_not_POST [of req w s]
      verify_handler_cases [of req _ w s]
    by (cases "req_method req = ''POST''"; cases "requested_code req")
      (auto simp: Map_get_delete split: option.splits sum.splits if_splits)
next
  assume "is_success (fst (verify_handler w req s))"
  then show "\<exists>c. requested_code req = Some c \<and> snd (verify_handler w req s) = Map_delete c s"
    using verify_handler_no_code [of req w s] verify_handler_not_POST [of req w s]
      verify_handler_cases [of req _ w s]
    by (cases "req_method req = ''POST''"; cases "requested_code req")
      (auto simp: is_success_simps split: option.splits sum.splits if_splits)
next
  assume "status_of (fst (verify_handler w req s)) = 404"
  then show "snd (verify_handler w req s) = s"
    using verify_handler_no_code [of req w s] verify_handler_cases [of req _ w s]
    by (cases "req_method req = ''POST''"; cases "requested_code req")
      (auto simp: status_of_simps verify_handler_def split: option.splits sum.splits if_splits)
next
  assume a: "wf_store s \<and> \<not> expired (clock w 0) d \<and> requested_code req \<noteq> Some k"
  then have "Map_get (cleanExpiredCodes (clock w 0) s) k = Some d"
    using assms by (simp add: Map_get_cleanExpiredCodes expired_def)
  then show "Map_get (snd (handleVerify w req s)) k = Some d"
    using a assms handleVerify_no_code [of req w s] handleVerify_OPTIONS [of req w s]
      handleVerify_cases [of req _ w s]
    by (cases "req_method req = ''OPTIONS''"; cases "requested_code req")
      (auto simp: Map_get_delete split: option.splits sum.splits if_splits)
next
  assume "is_success (fst (handleVerify w req s))"
  then show "\<exists>c. requested_code req = Some c
      \<and> snd (handleVerify w req s) = Map_delete c (cleanExpiredCodes (clock w 0) s)"
    using handleVerify_no_code [of req w s] handleVerify_OPTIONS [of req w s]
      handleVerify_cases [of req _ w s]
    by (cases "req_method req = ''OPTIONS''"; cases "requested_code req")
      (auto simp: is_success_simps split: option.splits sum.splits if_splits)
next
  assume a: "wf_store s \<and> \<not> expired (clock w 0) d \<and> \<not> expired (clock w 1) d
      \<and> status_of (fst (handleVerify w req s)) = 404"
  then have kept: "Map_get (cleanExpiredCodes (clock w 0) s) k = Some d"
    using assms by (simp add: Map_get_cleanExpiredCodes expired_def)
  show "Map_get (snd (handleVerify w req s)) k = Some d"
  proof (cases "req_method req = ''OPTIONS''")
    case True
    then show ?thesis using assms handleVerify_OPTIONS [of req w s] by simp
  next
    case False
    show ?thesis
    proof (cases "requested_code req")
      case None
      then show ?thesis using assms handleVerify_no_code [of req w s] by simp
    next
      case (Some c)
      show ?thesis
        using a kept handleVerify_cases [OF False Some, of w s]
        by (cases "k = c")
          (auto simp: Map_get_delete status_of_simps expired_def
            split: option.splits sum.splits if_splits)
    qed
  qed
next
  assume a: "wf_store s \<and> is_success (fst (handleVerify w req s))"
  then have "\<exists>c. requested_code req = Some c
      \<and> snd (handleVerify w req s) = Map_delete c (cleanExpiredCodes (clock w 0) s)"
    using handleVerify_no_code [of req w s] handleVerify_OPTIONS [of req w s]
      handleVerify_cases [of req _ w s]
    by (cases "req_method req = ''OPTIONS''"; cases "requested_code req")
      (auto simp: is_success_simps split: option.splits sum.splits if_splits)
  then obtain c where c: "requested_code req = Some c"
    "snd (handleVerify w req s) = Map_delete c (cleanExpiredCodes (clock w 0) s)" by blast
  have "Map_get (snd (handleVerify w req s)) k
      = (if k = c \<or> expired (clock w 0) d then None else Some d)"
    using a assms by (simp add: c(2) Map_get_delete Map_get_cleanExpiredCodes expired_def)
  with c(1) show "\<exists>c. requested_code req = Some c
      \<and> Map_get (snd (handleVerify w req s)) k
          = (if k = c \<or> expired (clock w 0) d then None else Some d)" by blast
next
  assume "Map_get s k' = None"
  then show "Map_get (snd (verify_handler w req s)) k' = None"
    by (rule verify_handler_absent)
next
  assume "Map_get s k' = None"
  then show "Map_get (snd (handleVerify w req s)) k' = None"
    by (rule handleVerify_absent)
qed

theorem verify_frame_witness:
  "Map_get ex_store ''120077'' = Some ex_other
   \<and> requested_code (ex_verify ''482913'') \<noteq> Some ''120077''
   \<and> is_success (fst (verify_handler (ex_world 10000) (ex_verify ''482913'') ex_store))
   \<and> Map_get (snd (verify_handler (ex_world 10000) (ex_verify ''482913'') ex_store)) ''120077''
       = Some ex_other
   \<and> wf_store ex_store \<and> \<not> expired (clock (ex_world 10000) 0) ex_other
   \<and> \<not> expired (clock (ex_world 10000) 1) ex_other
   \<and> is_success (fst (handleVerify (ex_world 10000) (ex_verify ''482913'') ex_store))
   \<and> Map_get (snd (handleVerify (ex_world 10000) (ex_verify ''482913'') ex_store)) ''120077''
       = Some ex_other
   \<and> status_of (fst (verify_handler (ex_world 400000) (ex_verify ''999999'') ex_store)) = 404
   \<and> snd (verify_handler (ex_world 400000) (ex_verify ''999999'') ex_store) = ex_store
   \<and> status_of (fst (handleVerify (ex_world 10000) (ex_verify ''999999'') ex_store)) = 404
   \<and> Map_get (snd (handleVerify (ex_world 10000) (ex_verify ''999999'') ex_store)) ''120077''
       = Some ex_other
   \<and> Map_get ex_store ''482913'' = Some ex_data
   \<and> is_success (fst (handleVerify (ex_world 301000) (ex_verify ''120077'') ex_store))
   \<and> expired (clock (ex_world 301000) 0) ex_data
   \<and> Map_get (snd (handleVerify (ex_world 301000) (ex_verify ''120077'') ex_store)) ''482913''
       = None
   \<and> Map_get ex_store ''999999'' = None
   \<and> Map_get (snd (verify_handler (ex_world 10000) (ex_verify ''482913'') ex_store)) ''999999''
       = None"
proof -
  have stored: "Map_get ex_store ''120077'' = Some ex_other" by simp
  have hyps: "requested_code (ex_verify ''482913'') \<noteq> Some ''120077''"
    "is_success (fst (verify_handler (ex_world 10000) (ex_verify ''482913'') ex_store))"
    "is_success (fst (handleVerify (ex_world 10000) (ex_verify ''482913'') ex_store))"
    "wf_store ex_store"
    "\<not> expired (clock (ex_world 10000) 0) ex_other"
    "\<not> expired (clock (ex_world 10000) 1) ex_other"
    "status_of (fst (verify_handler (ex_world 400000) (ex_verify ''999999'') ex_store)) = 404"
    "status_of (fst (handleVerify (ex_world 10000) (ex_verify ''999999'') ex_store)) = 404"
    by (simp_all add: ex_verify_handler ex_handleVerify is_success_simps status_of_simps
        expired_def)
  have c1: "Map_get (snd (verify_handler (ex_world 10000) (ex_verify ''482913'') ex_store))
      ''120077'' = Some ex_other"
    using verify_frame [OF stored, of "ex_verify ''482913''" "ex_world 10000"] hyps by blast
  have c2: "Map_get (snd (handleVerify (ex_world 10000) (ex_verify ''482913'') ex_store))
      ''120077'' = Some ex_other"
    using verify_frame [OF stored, of "ex_verify ''482913''" "ex_world 10000"] hyps by blast
  have c3: "snd (verify_handler (ex_world 400000) (ex_verify ''999999'') ex_store) = ex_store"
    using verify_frame [OF stored, of "ex_verify ''999999''" "ex_world 400000"] hyps by blast
  have c4: "Map_get (snd (handleVerify (ex_world 10000) (ex_verify ''999999'') ex_store))
      ''120077'' = Some ex_other"
    using verify_frame [OF stored, of "ex_verify ''999999''" "ex_world 10000"] hyps by blast
  have stored': "Map_get ex_store ''482913'' = Some ex_data" by simp
  have succ: "is_success (fst (handleVerify (ex_world 301000) (ex_verify ''120077'') ex_store))"
    by (simp add: ex_handleVerify_other is_success_simps)
  have ex: "expired (clock (ex_world 301000) 0) ex_data" by (simp add: expired_def)
  have h5: "wf_store ex_store
      \<and> is_success (fst (handleVerify (ex_world 301000) (ex_verify ''120077'') ex_store))"
    using succ by simp
  have "\<exists>c. requested_code (ex_verify ''120077'') = Some c
      \<and> Map_get (snd (handleVerify (ex_world 301000) (ex_verify ''120077'') ex_store)) ''482913''
          = (if ''482913'' = c \<or> expired (clock (ex_world 301000) 0) ex_data then None
             else Some ex_data)"
    by (rule verify_frame [OF stored', where req = "ex_verify ''120077''" and w = "ex_world 301000",
        THEN conjunct2, THEN conjunct2, THEN conjunct2, THEN conjunct2, THEN conjunct2,
        THEN conjunct2, THEN conjunct1, THEN mp, OF h5])
  then have c5: "Map_get (snd (handleVerify (ex_world 301000) (ex_verify ''120077'') ex_store))
      ''482913'' = None"
    using ex by auto
  have absent: "Map_get ex_store ''999999'' = None" by simp
  have c6: "Map_get (snd (verify_handler (ex_world 10000) (ex_verify ''482913'') ex_store))
      ''999999'' = None"
    using verify_frame [OF stored, where req = "ex_verify ''482913''" and w = "ex_world 10000"
        and k' = "''999999''", THEN conjunct2, THEN conjunct2, THEN conjunct2, THEN conjunct2,
        THEN conjunct2, THEN conjunct2, THEN conjunct2, THEN mp, OF absent]
    by (rule conjunct1)
  show ?thesis
    by (intro conjI) (fact stored hyps c1 c2 c3 c4 stored' succ ex c5 absent c6)+
qed

theorem verify_frame_counterexample:
  "Map_get ex_store ''482913'' = Some ex_data
   \<and> requested_code (ex_verify ''120077'') = Some ''120077''
   \<and> ''482913'' \<noteq> ''120077''
   \<and> is_success (fst (handleVerify (ex_world 301000) (ex_verify ''120077'') ex_store))
   \<and> Map_get (snd (handleVerify (ex_world 301000) (ex_verify ''120077'') ex_store)) ''482913''
       = None
   \<and> snd (handleVerify (ex_world 301000) (ex_verify ''120077'') ex_store) = []
   \<and> snd (handleVerify (ex_world 301000) (ex_verify ''120077'') ex_store)
       \<noteq> Map_delete ''120077'' ex_store"
proof -
  have r: "requested_code (ex_verify ''120077'') = Some ''120077''"
    by (simp add: requested_code_def ex_verify_def string_eval)
  have d: "Map_delete ''120077'' ex_store = [(''482913'', ex_data)]"
    by (simp add: ex_store_def)
  show ?thesis by (simp add: ex_handleVerify_other is_success_simps r d)
qed

section \<open>An expired code\<close>

text \<open>
  C2, as the code has it. A well-formed code that is stored with a record past its
  expiry: \<^verbatim>\<open>api/verify.js\<close> deletes the record and answers with status 410, which differs
  from the 404 of a code that is not stored. \<^verbatim>\<open>handleVerify\<close> of \<^verbatim>\<open>api/index.js\<close> (lines
  172 to 214) removes the record too (by the sweep, or by its own delete), but answers
  with status 404 and the message of a code that is not stored: its caller cannot tell
  the two apart.
\<close>

theorem expired_code_response:
  assumes "requested_code req = Some c" and "test_six_digits c"
    and "req_method req = ''POST''" and "Map_get s c = Some d"
  shows "(expired (clock w 0) d \<longrightarrow>
            verify_handler w req s =
              (fail_response 410 ''Code has expired. Please request a new one.'',
               Map_delete c s)
            \<and> Map_get (snd (verify_handler w req s)) c = None)
       \<and> (wf_store s \<and> (expired (clock w 0) d \<or> expired (clock w 1) d) \<longrightarrow>
            fst (handleVerify w req s) = fail_response 404 ''Invalid or expired code''
            \<and> Map_get (snd (handleVerify w req s)) c = None)
       \<and> (Map_get s' c = None \<longrightarrow>
            fst (verify_handler w req s') = fail_response 404 ''Invalid or expired code''
            \<and> fst (handleVerify w req s') = fail_response 404 ''Invalid or expired code'')"
proof (intro conjI impI)
  assume "expired (clock w 0) d"
  then show "verify_handler w req s =
      (fail_response 410 ''Code has expired. Please request a new one.'', Map_delete c s)"
    using assms by (simp add: verify_handler_cases expired_def)
  then show "Map_get (snd (verify_handler w req s)) c = None"
    by (simp add: Map_get_delete)
next
  assume a: "wf_store s \<and> (expired (clock w 0) d \<or> expired (clock w 1) d)"
  have opt: "req_method req \<noteq> ''OPTIONS''" using assms(3) by simp
  have swept: "Map_get (cleanExpiredCodes (clock w 0) s) c
      = (if expired (clock w 0) d then None else Some d)"
    using a assms(4) by (simp add: Map_get_cleanExpiredCodes expired_def)
  show "fst (handleVerify w req s) = fail_response 404 ''Invalid or expired code''"
    using a assms(2) swept by (auto simp: handleVerify_cases [OF opt assms(1)] expired_def)
  show "Map_get (snd (handleVerify w req s)) c = None"
    using a assms(2) swept
    by (auto simp: handleVerify_cases [OF opt assms(1)] expired_def Map_get_delete)
next
  assume "Map_get s' c = None"
  then show "fst (verify_handler w req s') = fail_response 404 ''Invalid or expired code''"
    using assms by (simp add: verify_handler_cases)
next
  assume "Map_get s' c = None"
  then have "Map_get (cleanExpiredCodes (clock w 0) s') c = None"
    by (rule Map_get_cleanExpiredCodes_None)
  moreover have "req_method req \<noteq> ''OPTIONS''" using assms(3) by simp
  ultimately show "fst (handleVerify w req s') = fail_response 404 ''Invalid or expired code''"
    using assms by (simp add: handleVerify_cases)
qed

theorem expired_code_response_witness:
  "requested_code (ex_verify ''482913'') = Some ''482913'' \<and> test_six_digits ''482913''
   \<and> req_method (ex_verify ''482913'') = ''POST''
   \<and> Map_get ex_store ''482913'' = Some ex_data
   \<and> expired (clock (ex_world 301000) 0) ex_data \<and> wf_store ex_store
   \<and> Map_get [(''120077'', ex_other)] ''482913'' = None
   \<and> status_of (fst (verify_handler (ex_world 301000) (ex_verify ''482913'') ex_store)) = 410
   \<and> Map_get (snd (verify_handler (ex_world 301000) (ex_verify ''482913'') ex_store))
        ''482913'' = None
   \<and> status_of (fst (handleVerify (ex_world 301000) (ex_verify ''482913'') ex_store)) = 404
   \<and> status_of (fst (verify_handler (ex_world 301000) (ex_verify ''482913'')
        [(''120077'', ex_other)])) = 404"
proof -
  have hyps: "requested_code (ex_verify ''482913'') = Some ''482913''"
    "test_six_digits ''482913''"
    "req_method (ex_verify ''482913'') = ''POST''"
    "Map_get ex_store ''482913'' = Some ex_data"
    by simp_all
  have more: "expired (clock (ex_world 301000) 0) ex_data" "wf_store ex_store"
    "Map_get [(''120077'', ex_other)] ''482913'' = None"
    by (simp_all add: expired_def)
  note inst = expired_code_response [OF hyps, of "ex_world 301000" "[(''120077'', ex_other)]"]
  have c1: "verify_handler (ex_world 301000) (ex_verify ''482913'') ex_store =
      (fail_response 410 ''Code has expired. Please request a new one.'',
       Map_delete ''482913'' ex_store)"
    and c2: "Map_get (snd (verify_handler (ex_world 301000) (ex_verify ''482913'') ex_store))
        ''482913'' = None"
    and c3: "fst (handleVerify (ex_world 301000) (ex_verify ''482913'') ex_store)
        = fail_response 404 ''Invalid or expired code''"
    and c4: "fst (verify_handler (ex_world 301000) (ex_verify ''482913'')
        [(''120077'', ex_other)]) = fail_response 404 ''Invalid or expired code''"
    using inst more by blast+
  show ?thesis using hyps more c2 by (simp add: c1 c3 c4 status_of_simps)
qed

theorem expired_code_counterexample:
  "requested_code (ex_verify ''482913'') = Some ''482913''
   \<and> req_method (ex_verify ''482913'') = ''POST''
   \<and> Map_get ex_store ''482913'' = Some ex_data
   \<and> expiresAt ex_data < clock (ex_world 301000) 0
   \<and> status_of (fst (handleVerify (ex_world 301000) (ex_verify ''482913'') ex_store)) = 404
   \<and> status_of (fst (handleVerify (ex_world 301000) (ex_verify ''482913'') ex_store)) \<noteq> 410
   \<and> fst (handleVerify (ex_world 301000) (ex_verify ''482913'') ex_store)
       = fst (handleVerify (ex_world 301000) (ex_verify ''482913'')
               (Map_delete ''482913'' ex_store))"
proof -
  have "Map_delete ''482913'' ex_store = [(''120077'', ex_other)]"
    by (simp add: ex_store_def)
  moreover have "handleVerify (ex_world 301000) (ex_verify ''482913'') [(''120077'', ex_other)]
      = (fail_response 404 ''Invalid or expired code'', [(''120077'', ex_other)])"
    by (simp add: handleVerify_cases cleanExpiredCodes_def)
  ultimately show ?thesis by (simp add: ex_handleVerify status_of_simps)
qed

section \<open>The response to a successful verification\<close>




section \<open>Uniqueness of issued codes\<close>

text \<open>
  C5. The loop of the \<^verbatim>\<open>/connect\<close> branch draws codes until one is not a key of the map:
  the code it returns is the first drawn code that no stored record has, whether that
  record has expired or not (the test is \<^verbatim>\<open>pendingCodes.has\<close>, which does not look at
  \<^verbatim>\<open>expiresAt\<close>), and the loop returns as soon as one drawn code is free. A webhook call
  stores a new record only under the code the loop returned, and it leaves every record
  its sweep kept in place. Every registry reachable from the empty map holds at most one
  record per code.
\<close>

theorem issued_code_unique:
  "(generate_unique rs s = Some code \<longrightarrow>
      \<not> Map_has s code \<and> Map_get s code = None
      \<and> (\<exists>i<length rs. code = generateCode (rs ! i)
            \<and> (\<forall>j<i. Map_has s (generateCode (rs ! j)))))
   \<and> ((\<exists>r\<in>set rs. \<not> Map_has s (generateCode r)) \<longrightarrow> (\<exists>c. generate_unique rs s = Some c))
   \<and> (wf_store s \<and> webhook_handler w req s = Some (resp, s') \<and> Map_get s' k = Some d
        \<and> Map_get s k \<noteq> Some d \<longrightarrow>
        generate_unique (random w) (cleanExpiredCodes (clock w 0) s) = Some k
        \<and> Map_get (cleanExpiredCodes (clock w 0) s) k = None)
   \<and> (wf_store s \<and> handleWebhook w req s = Some (resp, s') \<and> Map_get s' k = Some d
        \<and> Map_get s k \<noteq> Some d \<longrightarrow>
        generate_unique (random w) (cleanExpiredCodes (clock w 0) s) = Some k
        \<and> Map_get (cleanExpiredCodes (clock w 0) s) k = None)
   \<and> (wf_store s \<and> webhook_handler w req s = Some (resp, s') \<and> Map_get s k = Some d
        \<and> \<not> expired (clock w 0) d \<longrightarrow> Map_get s' k = Some d)
   \<and> (wf_store s \<and> handleWebhook w req s = Some (resp, s') \<and> Map_get s k = Some d
        \<and> \<not> expired (clock w 0) d \<longrightarrow> Map_get s' k = Some d)
   \<and> (reachable step_files s \<longrightarrow> wf_store s)
   \<and> (reachable step_index s \<longrightarrow> wf_store s)"
proof -
  have free: "\<not> Map_has s1 c \<Longrightarrow> Map_get s1 c = None" for s1 :: store and c
    by (simp add: map_of_eq_None_iff)
  have loop: "generate_unique rs s = Some code \<longrightarrow>
      \<not> Map_has s code \<and> Map_get s code = None
      \<and> (\<exists>i<length rs. code = generateCode (rs ! i)
            \<and> (\<forall>j<i. Map_has s (generateCode (rs ! j))))"
  proof
    assume g: "generate_unique rs s = Some code"
    then have "\<not> Map_has s code" by (rule generate_unique_fresh)
    then show "\<not> Map_has s code \<and> Map_get s code = None
      \<and> (\<exists>i<length rs. code = generateCode (rs ! i)
            \<and> (\<forall>j<i. Map_has s (generateCode (rs ! j))))"
      using generate_unique_first [OF g] free by simp
  qed
  have returns: "(\<exists>r\<in>set rs. \<not> Map_has s (generateCode r)) \<longrightarrow>
      (\<exists>c. generate_unique rs s = Some c)"
    using generate_unique_returns [of rs s] by (intro impI)
  have new1: "wf_store s \<and> webhook_handler w req s = Some (resp, s') \<and> Map_get s' k = Some d
        \<and> Map_get s k \<noteq> Some d \<longrightarrow>
        generate_unique (random w) (cleanExpiredCodes (clock w 0) s) = Some k
        \<and> Map_get (cleanExpiredCodes (clock w 0) s) k = None"
  proof (intro impI, elim conjE)
    assume a: "wf_store s" "webhook_handler w req s = Some (resp, s')"
      "Map_get s' k = Some d" "Map_get s k \<noteq> Some d"
    from webhook_handler_new_record [OF a]
    have g: "generate_unique (random w) (cleanExpiredCodes (clock w 0) s) = Some k" by simp
    then have "\<not> Map_has (cleanExpiredCodes (clock w 0) s) k" by (rule generate_unique_fresh)
    then show "generate_unique (random w) (cleanExpiredCodes (clock w 0) s) = Some k
        \<and> Map_get (cleanExpiredCodes (clock w 0) s) k = None"
      using g free by simp
  qed
  have new2: "wf_store s \<and> handleWebhook w req s = Some (resp, s') \<and> Map_get s' k = Some d
        \<and> Map_get s k \<noteq> Some d \<longrightarrow>
        generate_unique (random w) (cleanExpiredCodes (clock w 0) s) = Some k
        \<and> Map_get (cleanExpiredCodes (clock w 0) s) k = None"
  proof (intro impI, elim conjE)
    assume a: "wf_store s" "handleWebhook w req s = Some (resp, s')"
      "Map_get s' k = Some d" "Map_get s k \<noteq> Some d"
    from handleWebhook_new_record [OF a]
    have g: "generate_unique (random w) (cleanExpiredCodes (clock w 0) s) = Some k" by simp
    then have "\<not> Map_has (cleanExpiredCodes (clock w 0) s) k" by (rule generate_unique_fresh)
    then show "generate_unique (random w) (cleanExpiredCodes (clock w 0) s) = Some k
        \<and> Map_get (cleanExpiredCodes (clock w 0) s) k = None"
      using g free by simp
  qed
  have keep1: "wf_store s \<and> webhook_handler w req s = Some (resp, s') \<and> Map_get s k = Some d
        \<and> \<not> expired (clock w 0) d \<longrightarrow> Map_get s' k = Some d"
    by (intro impI, elim conjE) (rule webhook_handler_keeps)
  have keep2: "wf_store s \<and> handleWebhook w req s = Some (resp, s') \<and> Map_get s k = Some d
        \<and> \<not> expired (clock w 0) d \<longrightarrow> Map_get s' k = Some d"
    by (intro impI, elim conjE) (rule handleWebhook_keeps)
  have inv1: "reachable step_files s \<longrightarrow> wf_store s"
    by (intro impI) (rule reachable_files_wf)
  have inv2: "reachable step_index s \<longrightarrow> wf_store s"
    by (intro impI) (rule reachable_index_wf)
  show ?thesis
    by (intro conjI) (fact loop returns new1 new2 keep1 keep2 inv1 inv2)+
qed

theorem issued_code_unique_witness:
  "generate_unique [446127 / 1048576, 1 / 2] ex_store = Some ''550000''
   \<and> Map_has ex_store (generateCode (446127 / 1048576))
   \<and> \<not> Map_has ex_store ''550000''
   \<and> wf_store [] \<and> webhook_handler (ex_world 0) (ex_update ''/connect'') []
        = Some (ok_response, [(''482913'', ex_data)])
   \<and> Map_get [(''482913'', ex_data)] ''482913'' = Some ex_data
   \<and> Map_get [] ''482913'' \<noteq> Some ex_data
   \<and> generate_unique (random (ex_world 0)) (cleanExpiredCodes (clock (ex_world 0) 0) [])
        = Some ''482913''
   \<and> reachable step_files [(''482913'', ex_data)]
   \<and> wf_store [(''482913'', ex_data)]"
proof -
  have loop: "generate_unique [446127 / 1048576, 1 / 2] ex_store = Some ''550000''"
    by (rule ex_generate_unique)
  have taken: "Map_has ex_store (generateCode (446127 / 1048576))"
    by (simp add: ex_generateCode ex_store_def)
  have call: "webhook_handler (ex_world 0) (ex_update ''/connect'') []
      = Some (ok_response, [(''482913'', ex_data)])"
    by (rule ex_webhook_connect)
  have "step_files (Webhook (ex_world 0) (ex_update ''/connect'')) []
      = Some (ok_response, [(''482913'', ex_data)])"
    using call by simp
  with reachable_init have reach: "reachable step_files [(''482913'', ex_data)]"
    by (rule reachable_step)
  have hyps: "wf_store []" "Map_get [(''482913'', ex_data)] ''482913'' = Some ex_data"
    "Map_get [] ''482913'' \<noteq> Some ex_data"
    by (simp_all add: wf_store_def)
  have c1: "\<not> Map_has ex_store ''550000''"
    using issued_code_unique [where rs = "[446127 / 1048576, 1 / 2]" and s = ex_store
        and code = "''550000''", THEN conjunct1] loop
    by simp
  have c2: "generate_unique (random (ex_world 0))
      (cleanExpiredCodes (clock (ex_world 0) 0) []) = Some ''482913''"
    using issued_code_unique [where s = "[]" and w = "ex_world 0"
        and req = "ex_update ''/connect''" and resp = ok_response
        and s' = "[(''482913'', ex_data)]" and k = "''482913''" and d = ex_data,
        THEN conjunct2, THEN conjunct2, THEN conjunct1] call hyps
    by simp
  have c3: "wf_store [(''482913'', ex_data)]"
    using issued_code_unique [where s = "[(''482913'', ex_data)]", THEN conjunct2,
        THEN conjunct2, THEN conjunct2, THEN conjunct2, THEN conjunct2, THEN conjunct2,
        THEN conjunct1] reach
    by simp
  show ?thesis using loop taken call hyps reach c1 c2 c3 by simp
qed

section \<open>The expiry sweep\<close>

text \<open>
  C7, as the code has it. \<^verbatim>\<open>cleanExpiredCodes\<close> removes exactly the records whose
  \<^verbatim>\<open>expiresAt\<close> is strictly before its clock reading and keeps every other record
  unchanged and in order. Both webhook handlers sweep before the \<^verbatim>\<open>/connect\<close> branch
  draws and stores a code, and \<^verbatim>\<open>handleVerify\<close> of \<^verbatim>\<open>api/index.js\<close> (lines 172 to
  214) sweeps before it looks the code up. The handler of \<^verbatim>\<open>api/verify.js\<close> never sweeps: it leaves the map as
  it is or deletes the requested key, and tests the expiry of that key only.
\<close>

theorem sweep_removes_expired:
  "(wf_store s \<longrightarrow>
      cleanExpiredCodes now s = filter (\<lambda>(code, data). \<not> expired now data) s
      \<and> Map_get (cleanExpiredCodes now s) k
          = (case Map_get s k of
               None \<Rightarrow> None
             | Some data \<Rightarrow> if expired now data then None else Some data))
   \<and> (webhook_handler w req s = Some (resp, s') \<longrightarrow>
        s' = s \<or> s' = cleanExpiredCodes (clock w 0) s
        \<or> (\<exists>code data.
              generate_unique (random w) (cleanExpiredCodes (clock w 0) s) = Some code
              \<and> s' = Map_set code data (cleanExpiredCodes (clock w 0) s)))
   \<and> (handleWebhook w req s = Some (resp, s') \<longrightarrow>
        s' = s \<or> s' = cleanExpiredCodes (clock w 0) s
        \<or> (\<exists>code data.
              generate_unique (random w) (cleanExpiredCodes (clock w 0) s) = Some code
              \<and> s' = Map_set code data (cleanExpiredCodes (clock w 0) s)))
   \<and> (req_method req \<noteq> ''OPTIONS'' \<and> requested_code req = Some c \<and> test_six_digits c \<longrightarrow>
        snd (handleVerify w req s) = cleanExpiredCodes (clock w 0) s
        \<or> snd (handleVerify w req s) = Map_delete c (cleanExpiredCodes (clock w 0) s))
   \<and> (snd (verify_handler w req s) = s
        \<or> (\<exists>c'. requested_code req = Some c' \<and> snd (verify_handler w req s) = Map_delete c' s))"
proof -
  have sweep: "wf_store s \<longrightarrow>
      cleanExpiredCodes now s = filter (\<lambda>(code, data). \<not> expired now data) s
      \<and> Map_get (cleanExpiredCodes now s) k
          = (case Map_get s k of
               None \<Rightarrow> None
             | Some data \<Rightarrow> if expired now data then None else Some data)"
  proof
    assume wf: "wf_store s"
    have "cleanExpiredCodes now s = filter (\<lambda>(code, data). \<not> expired now data) s"
      unfolding expired_def using wf by (rule cleanExpiredCodes_filter)
    moreover have "Map_get (cleanExpiredCodes now s) k
          = (case Map_get s k of
               None \<Rightarrow> None
             | Some data \<Rightarrow> if expired now data then None else Some data)"
      unfolding expired_def using wf by (rule Map_get_cleanExpiredCodes)
    ultimately show "cleanExpiredCodes now s = filter (\<lambda>(code, data). \<not> expired now data) s
      \<and> Map_get (cleanExpiredCodes now s) k
          = (case Map_get s k of
               None \<Rightarrow> None
             | Some data \<Rightarrow> if expired now data then None else Some data)"
      by (rule conjI)
  qed
  have issue1: "webhook_handler w req s = Some (resp, s') \<longrightarrow>
        s' = s \<or> s' = cleanExpiredCodes (clock w 0) s
        \<or> (\<exists>code data.
              generate_unique (random w) (cleanExpiredCodes (clock w 0) s) = Some code
              \<and> s' = Map_set code data (cleanExpiredCodes (clock w 0) s))"
  proof
    assume "webhook_handler w req s = Some (resp, s')"
    from webhook_handler_store [OF this]
    show "s' = s \<or> s' = cleanExpiredCodes (clock w 0) s
        \<or> (\<exists>code data.
              generate_unique (random w) (cleanExpiredCodes (clock w 0) s) = Some code
              \<and> s' = Map_set code data (cleanExpiredCodes (clock w 0) s))"
      by blast
  qed
  have issue2: "handleWebhook w req s = Some (resp, s') \<longrightarrow>
        s' = s \<or> s' = cleanExpiredCodes (clock w 0) s
        \<or> (\<exists>code data.
              generate_unique (random w) (cleanExpiredCodes (clock w 0) s) = Some code
              \<and> s' = Map_set code data (cleanExpiredCodes (clock w 0) s))"
  proof
    assume "handleWebhook w req s = Some (resp, s')"
    from handleWebhook_store [OF this]
    show "s' = s \<or> s' = cleanExpiredCodes (clock w 0) s
        \<or> (\<exists>code data.
              generate_unique (random w) (cleanExpiredCodes (clock w 0) s) = Some code
              \<and> s' = Map_set code data (cleanExpiredCodes (clock w 0) s))"
      by blast
  qed
  have redeem: "req_method req \<noteq> ''OPTIONS'' \<and> requested_code req = Some c
        \<and> test_six_digits c \<longrightarrow>
        snd (handleVerify w req s) = cleanExpiredCodes (clock w 0) s
        \<or> snd (handleVerify w req s) = Map_delete c (cleanExpiredCodes (clock w 0) s)"
    by (auto simp: handleVerify_cases split: option.splits sum.splits)
  have lazy: "snd (verify_handler w req s) = s
        \<or> (\<exists>c'. requested_code req = Some c' \<and> snd (verify_handler w req s) = Map_delete c' s)"
    using verify_handler_no_code [of req w s] verify_handler_not_POST [of req w s]
      verify_handler_cases [of req _ w s]
    by (cases "req_method req = ''POST''"; cases "requested_code req")
      (auto split: option.splits sum.splits if_splits)
  show ?thesis
    by (intro conjI) (fact sweep issue1 issue2 redeem lazy)+
qed

theorem sweep_removes_expired_witness:
  "wf_store ex_store
   \<and> cleanExpiredCodes 301000 ex_store = [(''120077'', ex_other)]
   \<and> Map_get (cleanExpiredCodes 301000 ex_store) ''482913'' = None
   \<and> Map_get (cleanExpiredCodes 301000 ex_store) ''120077'' = Some ex_other
   \<and> req_method (ex_verify ''999999'') \<noteq> ''OPTIONS''
   \<and> requested_code (ex_verify ''999999'') = Some ''999999'' \<and> test_six_digits ''999999''
   \<and> snd (handleVerify (ex_world 400000) (ex_verify ''999999'') ex_store) = []"
proof -
  have wf: "wf_store ex_store" by simp
  have hyps: "req_method (ex_verify ''999999'') \<noteq> ''OPTIONS''
      \<and> requested_code (ex_verify ''999999'') = Some ''999999'' \<and> test_six_digits ''999999''"
    by simp
  note first = sweep_removes_expired [where s = ex_store and now = 301000
      and k = "''482913''", THEN conjunct1, THEN mp, OF wf]
  note second = sweep_removes_expired [where s = ex_store and now = 301000
      and k = "''120077''", THEN conjunct1, THEN mp, OF wf]
  note redeem = sweep_removes_expired [where s = ex_store and w = "ex_world 400000"
      and req = "ex_verify ''999999''" and c = "''999999''", THEN conjunct2, THEN conjunct2,
      THEN conjunct2, THEN conjunct1, THEN mp, OF hyps]
  have d1: "cleanExpiredCodes 301000 ex_store = [(''120077'', ex_other)]"
    using first [THEN conjunct1] by (simp add: ex_store_def expired_def)
  have d2: "Map_get (cleanExpiredCodes 301000 ex_store) ''482913'' = None"
    using first [THEN conjunct2] by (simp add: expired_def)
  have d3: "Map_get (cleanExpiredCodes 301000 ex_store) ''120077'' = Some ex_other"
    using second [THEN conjunct2] by (simp add: expired_def)
  have d4: "snd (handleVerify (ex_world 400000) (ex_verify ''999999'') ex_store) = []"
    using redeem by (simp add: ex_sweep)
  show ?thesis using wf hyps d1 d2 d3 d4 by simp
qed

theorem sweep_counterexample:
  "req_method (ex_verify ''999999'') = ''POST''
   \<and> requested_code (ex_verify ''999999'') = Some ''999999'' \<and> test_six_digits ''999999''
   \<and> Map_get ex_store ''482913'' = Some ex_data
   \<and> expired (clock (ex_world 400000) 0) ex_data
   \<and> cleanExpiredCodes (clock (ex_world 400000) 0) ex_store = []
   \<and> verify_handler (ex_world 400000) (ex_verify ''999999'') ex_store
       = (fail_response 404 ''Invalid or expired code'', ex_store)
   \<and> Map_get (snd (verify_handler (ex_world 400000) (ex_verify ''999999'') ex_store))
        ''482913'' = Some ex_data"
  by (simp add: ex_verify_handler ex_sweep expired_def)

section \<open>Requests to the webhook that are not updates\<close>

text \<open>
  C9, as the code has it. A POST whose body is any value other than \<^verbatim>\<open>null\<close> or
  \<^verbatim>\<open>undefined\<close> (a string, a number, an object) and has no truthy \<^verbatim>\<open>message\<close>, or a
  message with no truthy \<^verbatim>\<open>text\<close>, is answered with status 200 and \<^verbatim>\<open>{ ok: true }\<close>, and
  the registry is unchanged. A POST with no body (\<^verbatim>\<open>null\<close> or \<^verbatim>\<open>undefined\<close>), or with a
  message that has a text but whose other fields cannot be read, makes the handler
  throw: its \<^verbatim>\<open>catch\<close> answers with status 500, and the registry is unchanged too.
\<close>

theorem malformed_update_response:
  assumes "req_method req = ''POST''"
  shows "(req_body req = JUndefined \<or> req_body req = JNull \<longrightarrow>
            webhook_handler w req s
              = Some ((500, JObj [(''error'', JStr ''Internal error'')]), s)
            \<and> handleWebhook w req s
              = Some ((500, JObj [(''error'', JStr ''Internal error'')]), s))
       \<and> (get_prop (req_body req) ''message'' = Inr message
            \<and> (\<not> truthy message
                \<or> (\<exists>text. get_prop message ''text'' = Inr text \<and> \<not> truthy text)) \<longrightarrow>
            webhook_handler w req s = Some (ok_response, s)
            \<and> handleWebhook w req s = Some (ok_response, s))
       \<and> (get_prop (req_body req) ''message'' = Inr message \<and> truthy message
            \<and> get_prop message ''text'' = Inr text \<and> truthy text
            \<and> read_update message = Inl e \<longrightarrow>
            webhook_handler w req s
              = Some ((500, JObj [(''error'', JStr ''Internal error'')]), s))
       \<and> (get_prop (req_body req) ''message'' = Inr message \<and> truthy message
            \<and> get_prop message ''text'' = Inr text \<and> truthy text
            \<and> read_update_index message = Inl e \<longrightarrow>
            handleWebhook w req s
              = Some ((500, JObj [(''error'', JStr ''Internal error'')]), s))"
proof (intro conjI impI; (elim conjE)?)
  assume "req_body req = JUndefined \<or> req_body req = JNull"
  then show "webhook_handler w req s
      = Some ((500, JObj [(''error'', JStr ''Internal error'')]), s)"
    and "handleWebhook w req s
      = Some ((500, JObj [(''error'', JStr ''Internal error'')]), s)"
    using assms by (simp_all add: webhook_no_body handleWebhook_no_body)
next
  assume "get_prop (req_body req) ''message'' = Inr message"
    and "\<not> truthy message \<or> (\<exists>text. get_prop message ''text'' = Inr text \<and> \<not> truthy text)"
  then show "webhook_handler w req s = Some (ok_response, s)"
    and "handleWebhook w req s = Some (ok_response, s)"
    using assms by (simp_all add: webhook_no_text handleWebhook_no_text)
next
  assume "get_prop (req_body req) ''message'' = Inr message" "truthy message"
    "get_prop message ''text'' = Inr text" "truthy text" "read_update message = Inl e"
  then show "webhook_handler w req s
      = Some ((500, JObj [(''error'', JStr ''Internal error'')]), s)"
    using assms by (simp add: webhook_bad_fields)
next
  assume "get_prop (req_body req) ''message'' = Inr message" "truthy message"
    "get_prop message ''text'' = Inr text" "truthy text" "read_update_index message = Inl e"
  then show "handleWebhook w req s
      = Some ((500, JObj [(''error'', JStr ''Internal error'')]), s)"
    by (simp add: handleWebhook_bad_fields)
qed

theorem malformed_update_response_witness:
  "req_method (ex_post (JStr ''hello'')) = ''POST''
   \<and> get_prop (req_body (ex_post (JStr ''hello''))) ''message'' = Inr JUndefined
   \<and> \<not> truthy JUndefined
   \<and> webhook_handler (ex_world 0) (ex_post (JStr ''hello'')) ex_store
       = Some (ok_response, ex_store)
   \<and> handleWebhook (ex_world 0) (ex_post (JStr ''hello'')) ex_store
       = Some (ok_response, ex_store)
   \<and> req_method (ex_post (JObj [(''message'', JObj [(''photo'', JNum 1)])])) = ''POST''
   \<and> webhook_handler (ex_world 0) (ex_post (JObj [(''message'', JObj [(''photo'', JNum 1)])]))
        ex_store = Some (ok_response, ex_store)
   \<and> req_method (ex_post JNull) = ''POST''
   \<and> webhook_handler (ex_world 0) (ex_post JNull) ex_store
       = Some ((500, JObj [(''error'', JStr ''Internal error'')]), ex_store)
   \<and> handleWebhook (ex_world 0) (ex_post JNull) ex_store
       = Some ((500, JObj [(''error'', JStr ''Internal error'')]), ex_store)
   \<and> read_update (JObj [(''text'', JStr ''/connect'')]) = Inl TypeError
   \<and> webhook_handler (ex_world 0)
        (ex_post (JObj [(''message'', JObj [(''text'', JStr ''/connect'')])])) ex_store
       = Some ((500, JObj [(''error'', JStr ''Internal error'')]), ex_store)"
proof -
  have post: "req_method (ex_post b) = ''POST''" for b by (simp add: ex_post_def)
  have a: "get_prop (req_body (ex_post (JStr ''hello''))) ''message'' = Inr JUndefined
      \<and> (\<not> truthy JUndefined
          \<or> (\<exists>text. get_prop JUndefined ''text'' = Inr text \<and> \<not> truthy text))"
    by (simp add: ex_post_def)
  have b: "get_prop (req_body (ex_post (JObj [(''message'', JObj [(''photo'', JNum 1)])])))
        ''message'' = Inr (JObj [(''photo'', JNum 1)])
      \<and> (\<not> truthy (JObj [(''photo'', JNum 1)])
          \<or> (\<exists>text. get_prop (JObj [(''photo'', JNum 1)]) ''text'' = Inr text
                \<and> \<not> truthy text))"
    by (simp add: ex_post_def)
  have c: "req_body (ex_post JNull) = JUndefined \<or> req_body (ex_post JNull) = JNull"
    by (simp add: ex_post_def)
  have d: "get_prop (req_body (ex_post (JObj [(''message'', JObj [(''text'', JStr ''/connect'')])])))
        ''message'' = Inr (JObj [(''text'', JStr ''/connect'')])
      \<and> truthy (JObj [(''text'', JStr ''/connect'')])
      \<and> get_prop (JObj [(''text'', JStr ''/connect'')]) ''text'' = Inr (JStr ''/connect'')
      \<and> truthy (JStr ''/connect'')
      \<and> read_update (JObj [(''text'', JStr ''/connect'')]) = Inl TypeError"
    by (simp add: ex_post_def read_update_def try_bind_def)
  note fourth = malformed_update_response [OF post, where w = "ex_world 0" and s = ex_store,
      THEN conjunct2, THEN conjunct2, THEN conjunct1, THEN mp, OF d]
  note first = malformed_update_response [OF post, where w = "ex_world 0" and s = ex_store,
      THEN conjunct2, THEN conjunct1, THEN mp, OF a]
  note second = malformed_update_response [OF post, where w = "ex_world 0" and s = ex_store,
      THEN conjunct2, THEN conjunct1, THEN mp, OF b]
  note third = malformed_update_response [OF post, where w = "ex_world 0" and s = ex_store,
      THEN conjunct1, THEN mp, OF c]
  show ?thesis using post a d first second third fourth by simp
qed

theorem malformed_update_counterexample:
  "req_method (ex_post JNull) = ''POST''
   \<and> webhook_handler (ex_world 0) (ex_post JNull) ex_store
       = Some ((500, JObj [(''error'', JStr ''Internal error'')]), ex_store)
   \<and> handleWebhook (ex_world 0) (ex_post JNull) ex_store
       = Some ((500, JObj [(''error'', JStr ''Internal error'')]), ex_store)
   \<and> webhook_handler (ex_world 0) (ex_post JNull) ex_store \<noteq> Some (ok_response, ex_store)"
  by (simp add: webhook_no_body handleWebhook_no_body ex_post_def ok_response_def)

section \<open>One-time use\<close>

text \<open>
  C1. When a verify call for a code succeeds, the entry of that code is no longer in the
  registry after the call. In every sequence of later calls, a verify call (a POST) for
  the same code is answered with status 404 for as long as the code has not been stored
  again; and no verify call stores a code, so only an issuance by the webhook can bring
  it back. This holds for \<^verbatim>\<open>api/verify.js\<close> with \<^verbatim>\<open>api/webhook.js\<close> and for the two
  handlers of \<^verbatim>\<open>api/index.js\<close>.
\<close>

theorem one_time_use:
  assumes "requested_code req = Some c"
  shows "(is_success (fst (verify_handler w req s)) \<longrightarrow>
            Map_get (snd (verify_handler w req s)) c = None
            \<and> (\<forall>cs out i w' req'.
                 run step_files cs (snd (verify_handler w req s)) = Some out
                 \<and> i < length cs \<and> cs ! i = Verify w' req'
                 \<and> requested_code req' = Some c \<and> req_method req' = ''POST''
                 \<and> (\<forall>j<i. Map_get (snd (out ! j)) c = None) \<longrightarrow>
                 fst (out ! i) = fail_response 404 ''Invalid or expired code''))
       \<and> (is_success (fst (handleVerify w req s)) \<longrightarrow>
            Map_get (snd (handleVerify w req s)) c = None
            \<and> (\<forall>cs out i w' req'.
                 run step_index cs (snd (handleVerify w req s)) = Some out
                 \<and> i < length cs \<and> cs ! i = Verify w' req'
                 \<and> requested_code req' = Some c \<and> req_method req' = ''POST''
                 \<and> (\<forall>j<i. Map_get (snd (out ! j)) c = None) \<longrightarrow>
                 fst (out ! i) = fail_response 404 ''Invalid or expired code''))
       \<and> (Map_get s0 c = None \<longrightarrow>
            Map_get (snd (verify_handler w0 req0 s0)) c = None
            \<and> Map_get (snd (handleVerify w0 req0 s0)) c = None)"
proof (intro conjI impI)
  assume ok: "is_success (fst (verify_handler w req s))"
  from verify_handler_success_consumes [OF assms ok]
  have six: "test_six_digits c"
    and gone: "Map_get (snd (verify_handler w req s)) c = None" by simp_all
  show "Map_get (snd (verify_handler w req s)) c = None" by (rule gone)
  show "\<forall>cs out i w' req'.
      run step_files cs (snd (verify_handler w req s)) = Some out
      \<and> i < length cs \<and> cs ! i = Verify w' req'
      \<and> requested_code req' = Some c \<and> req_method req' = ''POST''
      \<and> (\<forall>j<i. Map_get (snd (out ! j)) c = None) \<longrightarrow>
      fst (out ! i) = fail_response 404 ''Invalid or expired code''"
  proof (intro allI impI, elim conjE)
    fix cs out i w' req'
    assume "run step_files cs (snd (verify_handler w req s)) = Some out" "i < length cs"
      "cs ! i = Verify w' req'" "requested_code req' = Some c" "req_method req' = ''POST''"
      "\<forall>j<i. Map_get (snd (out ! j)) c = None"
    then show "fst (out ! i) = fail_response 404 ''Invalid or expired code''"
      using gone six
      by (intro run_not_found [where step = step_files and h = verify_handler and c = c])
        (simp_all add: verify_handler_not_found)
  qed
next
  assume ok: "is_success (fst (handleVerify w req s))"
  from handleVerify_success_consumes [OF assms ok]
  have six: "test_six_digits c"
    and gone: "Map_get (snd (handleVerify w req s)) c = None" by simp_all
  show "Map_get (snd (handleVerify w req s)) c = None" by (rule gone)
  show "\<forall>cs out i w' req'.
      run step_index cs (snd (handleVerify w req s)) = Some out
      \<and> i < length cs \<and> cs ! i = Verify w' req'
      \<and> requested_code req' = Some c \<and> req_method req' = ''POST''
      \<and> (\<forall>j<i. Map_get (snd (out ! j)) c = None) \<longrightarrow>
      fst (out ! i) = fail_response 404 ''Invalid or expired code''"
  proof (intro allI impI, elim conjE)
    fix cs out i w' req'
    assume "run step_index cs (snd (handleVerify w req s)) = Some out" "i < length cs"
      "cs ! i = Verify w' req'" "requested_code req' = Some c" "req_method req' = ''POST''"
      "\<forall>j<i. Map_get (snd (out ! j)) c = None"
    then show "fst (out ! i) = fail_response 404 ''Invalid or expired code''"
      using gone six
      by (intro run_not_found [where step = step_index and h = handleVerify and c = c])
        (simp_all add: handleVerify_not_found)
  qed
next
  assume "Map_get s0 c = None"
  then show "Map_get (snd (verify_handler w0 req0 s0)) c = None"
    by (rule verify_handler_absent)
next
  assume "Map_get s0 c = None"
  then show "Map_get (snd (handleVerify w0 req0 s0)) c = None"
    by (rule handleVerify_absent)
qed

theorem one_time_use_witness:
  "requested_code (ex_verify ''482913'') = Some ''482913''
   \<and> is_success (fst (verify_handler (ex_world 10000) (ex_verify ''482913'') ex_store))
   \<and> Map_get (snd (verify_handler (ex_world 10000) (ex_verify ''482913'') ex_store))
        ''482913'' = None
   \<and> run step_files
        [Webhook (ex_world 10001) (ex_update ''/start''),
         Verify (ex_world 10002) (ex_verify ''482913'')]
        (snd (verify_handler (ex_world 10000) (ex_verify ''482913'') ex_store))
       = Some [(ok_response, [(''120077'', ex_other)]),
               (fail_response 404 ''Invalid or expired code'', [(''120077'', ex_other)])]
   \<and> is_success (fst (handleVerify (ex_world 10000) (ex_verify ''482913'') ex_store))
   \<and> fst (handleVerify (ex_world 10001) (ex_verify ''482913'')
        (snd (handleVerify (ex_world 10000) (ex_verify ''482913'') ex_store)))
       = fail_response 404 ''Invalid or expired code''"
proof -
  let ?req = "ex_verify ''482913''"
  let ?s1 = "snd (verify_handler (ex_world 10000) ?req ex_store)"
  let ?t1 = "snd (handleVerify (ex_world 10000) ?req ex_store)"
  let ?cs = "[Webhook (ex_world 10001) (ex_update ''/start''), Verify (ex_world 10002) ?req]"
  let ?r = "verify_handler (ex_world 10002) ?req [(''120077'', ex_other)]"
  have code: "requested_code ?req = Some ''482913''" by simp
  have ok1: "is_success (fst (verify_handler (ex_world 10000) ?req ex_store))"
    and ok2: "is_success (fst (handleVerify (ex_world 10000) ?req ex_store))"
    by (simp_all add: ex_verify_handler ex_handleVerify is_success_simps)
  note files = one_time_use [OF code, where w = "ex_world 10000" and s = ex_store,
      THEN conjunct1, THEN mp, OF ok1]
  note index = one_time_use [OF code, where w = "ex_world 10000" and s = ex_store,
      THEN conjunct2, THEN conjunct1, THEN mp, OF ok2]
  have s1: "?s1 = [(''120077'', ex_other)]" by (simp add: ex_verify_handler)
  have swept: "cleanExpiredCodes 10001 [(''120077'', ex_other)] = [(''120077'', ex_other)]"
    by (simp add: cleanExpiredCodes_def)
  have run1: "run step_files ?cs ?s1 = Some [(ok_response, [(''120077'', ex_other)]), ?r]"
    by (cases ?r) (simp add: s1 ex_webhook_start swept)
  have untouched: "snd ?r = [(''120077'', ex_other)]"
    by (simp add: verify_handler_cases)
  have again1: "fst ([(ok_response, [(''120077'', ex_other)]), ?r] ! 1)
      = fail_response 404 ''Invalid or expired code''"
    using files [THEN conjunct2, rule_format, where cs = ?cs and i = 1
        and w' = "ex_world 10002" and req' = ?req] run1 code
    by simp
  then have r: "?r = (fail_response 404 ''Invalid or expired code'', [(''120077'', ex_other)])"
    using untouched by (cases ?r) simp
  have run2: "run step_index [Verify (ex_world 10001) ?req] ?t1
      = Some [handleVerify (ex_world 10001) ?req ?t1]"
    by (cases "handleVerify (ex_world 10001) ?req ?t1") simp
  have again2: "fst ([handleVerify (ex_world 10001) ?req ?t1] ! 0)
      = fail_response 404 ''Invalid or expired code''"
    using index [THEN conjunct2, rule_format, where cs = "[Verify (ex_world 10001) ?req]"
        and i = 0 and w' = "ex_world 10001" and req' = ?req] run2 code
    by simp
  show ?thesis
    using code ok1 ok2 files [THEN conjunct1] run1 r again2 by simp
qed

section \<open>Expiry\<close>

text \<open>
  C3, as the code has it. The record that the \<^verbatim>\<open>/connect\<close> branch of \<^verbatim>\<open>api/webhook.js\<close>
  stores is built with two calls of \<^verbatim>\<open>Date.now()\<close>: \<^verbatim>\<open>createdAt\<close> is the first of them
  and \<^verbatim>\<open>expiresAt\<close> is the second plus exactly 5 minutes (300000 ms), so \<^verbatim>\<open>expiresAt\<close>
  is \<^verbatim>\<open>createdAt\<close> plus 5 minutes when the two readings agree. No later call changes a
  stored record. A verify call of \<^verbatim>\<open>api/verify.js\<close> for a stored, well-formed code
  succeeds when its clock reading is at or before \<^verbatim>\<open>expiresAt\<close> and fails with status
  410 when the reading is strictly after it; the test is \<^verbatim>\<open>now > expiresAt\<close>. Success
  needs the user id of the record to convert to a string for the session token, as
  every number, string and boolean does.
\<close>

theorem expiry_semantics:
  "(wf_store s \<and> webhook_handler w req s = Some (resp, s') \<and> Map_get s' k = Some d
      \<and> Map_get s k \<noteq> Some d \<longrightarrow>
      createdAt d = Some (clock w 1) \<and> expiresAt d = clock w 2 + 5 * 60 * 1000
      \<and> (clock w 2 = clock w 1 \<longrightarrow> createdAt d = Some (expiresAt d - 5 * 60 * 1000)))
   \<and> (Map_get (snd (verify_handler w req s)) k = Some d \<longrightarrow> Map_get s k = Some d)
   \<and> (requested_code req = Some c \<and> test_six_digits c \<and> req_method req = ''POST''
      \<and> Map_get s c = Some d \<and> js_toString (userId d) = Inr uid \<longrightarrow>
      (clock w 0 \<le> expiresAt d \<longrightarrow>
         fst (verify_handler w req s) = verify_success w d uid
         \<and> is_success (fst (verify_handler w req s)))
      \<and> (clock w 0 > expiresAt d \<longrightarrow>
         fst (verify_handler w req s)
           = fail_response 410 ''Code has expired. Please request a new one.''
         \<and> \<not> is_success (fst (verify_handler w req s))))"
proof (intro conjI impI; (elim conjE)?)
  assume a: "wf_store s" "webhook_handler w req s = Some (resp, s')" "Map_get s' k = Some d"
    "Map_get s k \<noteq> Some d"
  from webhook_handler_new_record [OF a]
  show "createdAt d = Some (clock w 1)" and "expiresAt d = clock w 2 + 5 * 60 * 1000"
    by (simp_all add: CODE_EXPIRY_MS_def)
  then show "createdAt d = Some (expiresAt d - 5 * 60 * 1000)" if "clock w 2 = clock w 1"
    using that by simp
next
  assume "Map_get (snd (verify_handler w req s)) k = Some d"
  then show "Map_get s k = Some d" by (rule verify_handler_no_update)
next
  assume a: "requested_code req = Some c" "test_six_digits c" "req_method req = ''POST''"
    "Map_get s c = Some d" "js_toString (userId d) = Inr uid"
  {
    assume "clock w 0 \<le> expiresAt d"
    then show "fst (verify_handler w req s) = verify_success w d uid"
      using a by (simp add: verify_handler_cases)
    then show "is_success (fst (verify_handler w req s))"
      by (simp add: is_success_simps)
  }
  {
    assume "clock w 0 > expiresAt d"
    then show "fst (verify_handler w req s)
        = fail_response 410 ''Code has expired. Please request a new one.''"
      using a by (simp add: verify_handler_cases)
    then show "\<not> is_success (fst (verify_handler w req s))"
      by (simp add: is_success_simps)
  }
qed

theorem expiry_semantics_witness:
  "wf_store [] \<and> webhook_handler (ex_world 0) (ex_update ''/connect'') []
        = Some (ok_response, [(''482913'', ex_data)])
   \<and> Map_get [(''482913'', ex_data)] ''482913'' = Some ex_data
   \<and> Map_get [] ''482913'' \<noteq> Some ex_data
   \<and> createdAt ex_data = Some 0 \<and> expiresAt ex_data = 300000
   \<and> requested_code (ex_verify ''482913'') = Some ''482913'' \<and> test_six_digits ''482913''
   \<and> req_method (ex_verify ''482913'') = ''POST''
   \<and> Map_get ex_store ''482913'' = Some ex_data \<and> js_toString (userId ex_data) = Inr ''42''
   \<and> is_success (fst (verify_handler (ex_world 299999) (ex_verify ''482913'') ex_store))
   \<and> is_success (fst (verify_handler (ex_world 300000) (ex_verify ''482913'') ex_store))
   \<and> status_of (fst (verify_handler (ex_world 300001) (ex_verify ''482913'') ex_store)) = 410"
proof -
  have issue: "wf_store [] \<and> webhook_handler (ex_world 0) (ex_update ''/connect'') []
        = Some (ok_response, [(''482913'', ex_data)])
      \<and> Map_get [(''482913'', ex_data)] ''482913'' = Some ex_data
      \<and> Map_get [] ''482913'' \<noteq> Some ex_data"
    by (simp add: wf_store_def ex_webhook_connect)
  have redeem: "requested_code (ex_verify ''482913'') = Some ''482913''
      \<and> test_six_digits ''482913'' \<and> req_method (ex_verify ''482913'') = ''POST''
      \<and> Map_get ex_store ''482913'' = Some ex_data
      \<and> js_toString (userId ex_data) = Inr ''42''"
    by simp
  note stored = expiry_semantics [where s = "[]" and w = "ex_world 0"
      and req = "ex_update ''/connect''" and resp = ok_response
      and s' = "[(''482913'', ex_data)]" and k = "''482913''" and d = ex_data,
      THEN conjunct1, THEN mp, OF issue]
  note before = expiry_semantics [where s = ex_store and w = "ex_world 299999"
      and req = "ex_verify ''482913''" and c = "''482913''" and d = ex_data
      and uid = "''42''", THEN conjunct2, THEN conjunct2, THEN mp, OF redeem]
  note at = expiry_semantics [where s = ex_store and w = "ex_world 300000"
      and req = "ex_verify ''482913''" and c = "''482913''" and d = ex_data
      and uid = "''42''", THEN conjunct2, THEN conjunct2, THEN mp, OF redeem]
  note after = expiry_semantics [where s = ex_store and w = "ex_world 300001"
      and req = "ex_verify ''482913''" and c = "''482913''" and d = ex_data
      and uid = "''42''", THEN conjunct2, THEN conjunct2, THEN mp, OF redeem]
  have c1: "createdAt ex_data = Some 0 \<and> expiresAt ex_data = 300000"
    using stored by simp
  have c2: "is_success (fst (verify_handler (ex_world 299999) (ex_verify ''482913'') ex_store))"
    using before by (simp add: is_success_simps)
  have c3: "is_success (fst (verify_handler (ex_world 300000) (ex_verify ''482913'') ex_store))"
    using at by (simp add: is_success_simps)
  have c4: "status_of (fst (verify_handler (ex_world 300001) (ex_verify ''482913'') ex_store))
      = 410"
    using after by (simp add: status_of_simps)
  show ?thesis using issue redeem c1 c2 c3 c4 by simp
qed

theorem expiry_counterexample:
  "webhook_handler ex_tick (ex_update ''/connect'') []
     = Some (ok_response,
         [(''482913'', \<lparr> chatId = JNum 42, userId = JNum 42, username = JStr [],
             firstName = JStr ''Ann'', createdAt = Some 1001, expiresAt = 301002 \<rparr>)])
   \<and> (301002 :: int) \<noteq> 1001 + 5 * 60 * 1000
   \<and> requested_code (ex_verify ''482913'') = Some ''482913''
   \<and> Map_get [(''482913'', ex_odd_data)] ''482913'' = Some ex_odd_data
   \<and> clock (ex_world 10000) 0 \<le> expiresAt ex_odd_data
   \<and> verify_handler (ex_world 10000) (ex_verify ''482913'') [(''482913'', ex_odd_data)]
       = (fail_response 500 ''Server error'', [])"
  by (simp add: ex_webhook_connect_tick verify_handler_cases) (simp add: ex_odd_data_def)

end
